theory Spec2Isabelle
  imports Complex_Main
begin

section \<open>JavaScript values\<close>

text \<open>
  The console is a JavaScript program. Its tables are read from tab-separated files, so
  every cell is a string; a column that a file does not have reads as \<open>undefined\<close>.
  A string is modelled as a \<open>string\<close> of ASCII characters (the tables and the weather
  reports are ASCII text), a value that may be \<open>undefined\<close> or \<open>null\<close> as a
  \<open>string option\<close> with \<open>None\<close> for both.
\<close>

subsection \<open>Strings\<close>

text \<open>The white space of \<open>String.prototype.trim\<close> and of \<open>\s\<close>, within ASCII:
  tab, line feed, vertical tab, form feed, carriage return and space.\<close>

definition isSpace :: "char \<Rightarrow> bool" where
  "isSpace c = (c \<in> set [CHR 0x09, CHR 0x0A, CHR 0x0B, CHR 0x0C, CHR 0x0D, CHR '' ''])"

definition trim :: "string \<Rightarrow> string" where
  "trim s = rev (dropWhile isSpace (rev (dropWhile isSpace s)))"

text \<open>\<open>function norm(s) { return (s ?? "").trim(); }\<close>\<close>

definition norm_str :: "string option \<Rightarrow> string" where
  "norm_str s = trim (case s of None \<Rightarrow> [] | Some x \<Rightarrow> x)"

definition caseTable :: "(char \<times> char) list" where
  "caseTable = zip ''abcdefghijklmnopqrstuvwxyz'' ''ABCDEFGHIJKLMNOPQRSTUVWXYZ''"

definition upperChar :: "char \<Rightarrow> char" where
  "upperChar c = (case map_of caseTable c of Some u \<Rightarrow> u | None \<Rightarrow> c)"

definition toUpperCase :: "string \<Rightarrow> string" where
  "toUpperCase s = map upperChar s"

text \<open>\<open>s.startsWith(p)\<close> and \<open>s.includes(p)\<close>.\<close>

fun str_startsWith :: "string \<Rightarrow> string \<Rightarrow> bool" where
  "str_startsWith s [] = True"
| "str_startsWith [] (p # ps) = False"
| "str_startsWith (c # cs) (p # ps) = (c = p \<and> str_startsWith cs ps)"

fun str_includes :: "string \<Rightarrow> string \<Rightarrow> bool" where
  "str_includes [] p = (p = [])"
| "str_includes (c # cs) p = (str_startsWith (c # cs) p \<or> str_includes cs p)"

text \<open>\<open>s.replace(/\s+/g, ".")\<close>: every maximal run of white space becomes one dot. The
  flag says that the character before was white space of the run being replaced.\<close>

fun replaceSpaceRuns :: "bool \<Rightarrow> string \<Rightarrow> string" where
  "replaceSpaceRuns inRun [] = []"
| "replaceSpaceRuns inRun (c # cs) =
     (if isSpace c then (if inRun then replaceSpaceRuns True cs
                         else CHR ''.'' # replaceSpaceRuns True cs)
      else c # replaceSpaceRuns False cs)"

subsection \<open>Numbers\<close>

text \<open>
  A JavaScript number is \<open>NaN\<close>, an infinity or a finite value. Finite values are kept
  as rationals (every binary64 value is one). Only the order of numbers and the sign of a
  difference are used below, and both are the same for the rounded and the exact result.
\<close>

datatype jsnum = NaN | NegInf | Fin rat | PosInf

text \<open>\<open>Number.isFinite(x)\<close>, \<open>a - b\<close>, \<open>a < b\<close> and \<open>a <= b\<close>.\<close>

fun isFinite :: "jsnum \<Rightarrow> bool" where
  "isFinite (Fin q) = True"
| "isFinite x = False"

fun js_sub :: "jsnum \<Rightarrow> jsnum \<Rightarrow> jsnum" where
  "js_sub NaN b = NaN"
| "js_sub a NaN = NaN"
| "js_sub PosInf PosInf = NaN"
| "js_sub NegInf NegInf = NaN"
| "js_sub PosInf b = PosInf"
| "js_sub NegInf b = NegInf"
| "js_sub (Fin a) PosInf = NegInf"
| "js_sub (Fin a) NegInf = PosInf"
| "js_sub (Fin a) (Fin b) = Fin (a - b)"

fun js_lt :: "jsnum \<Rightarrow> jsnum \<Rightarrow> bool" where
  "js_lt NaN b = False"
| "js_lt a NaN = False"
| "js_lt a NegInf = False"
| "js_lt NegInf b = True"
| "js_lt PosInf b = False"
| "js_lt (Fin a) PosInf = True"
| "js_lt (Fin a) (Fin b) = (a < b)"

fun js_le :: "jsnum \<Rightarrow> jsnum \<Rightarrow> bool" where
  "js_le NaN b = False"
| "js_le a NaN = False"
| "js_le NegInf b = True"
| "js_le a PosInf = True"
| "js_le PosInf b = False"
| "js_le (Fin a) NegInf = False"
| "js_le (Fin a) (Fin b) = (a \<le> b)"

subsection \<open>The built-ins of the host\<close>

text \<open>
  Three built-ins belong to the JavaScript engine and its locale, not to the program:
  \<open>Number(s)\<close>, which converts a string to a number; the conversion of a finite number
  to a string, as in \<open>`${n}`\<close>, whose digits depend on the binary form of the number; and
  \<open>a.localeCompare(b)\<close>, the collation of the locale. They are parameters of the model:
  a \<open>host\<close> gives them, and every theorem below that speaks of a host \<open>h\<close> holds for
  every host.
\<close>

record host =
  Number :: "string \<Rightarrow> jsnum"
  NumberToString :: "rat \<Rightarrow> string"
  localeCompare :: "string \<Rightarrow> string \<Rightarrow> int"

text \<open>\<open>Number(x)\<close> of a value that may be \<open>undefined\<close>: \<open>Number(undefined)\<close> is
  \<open>NaN\<close>.\<close>

definition NumberOf :: "host \<Rightarrow> string option \<Rightarrow> jsnum" where
  "NumberOf h x = (case x of None \<Rightarrow> NaN | Some s \<Rightarrow> Number h s)"

subsection \<open>Array.prototype.sort\<close>

text \<open>
  \<open>xs.sort(cmp)\<close> puts \<open>a\<close> before \<open>b\<close> unless \<open>cmp(a, b) > 0\<close>; a result of
  \<open>NaN\<close> counts as \<open>+0\<close>. The sort is stable. For a comparison function that orders
  the elements consistently this fixes the result, which the insertion sort below
  computes; for any other comparison function the standard leaves the order to the engine.
\<close>

definition cmpPositive :: "jsnum \<Rightarrow> bool" where
  "cmpPositive v = (case v of PosInf \<Rightarrow> True | Fin q \<Rightarrow> 0 < q | NaN \<Rightarrow> False | NegInf \<Rightarrow> False)"

fun insertSorted :: "('a \<Rightarrow> 'a \<Rightarrow> jsnum) \<Rightarrow> 'a \<Rightarrow> 'a list \<Rightarrow> 'a list" where
  "insertSorted cmp x [] = [x]"
| "insertSorted cmp x (y # ys) =
     (if cmpPositive (cmp x y) then y # insertSorted cmp x ys else x # y # ys)"

definition Array_sort :: "('a \<Rightarrow> 'a \<Rightarrow> jsnum) \<Rightarrow> 'a list \<Rightarrow> 'a list" where
  "Array_sort cmp xs = foldr (insertSorted cmp) xs []"

section \<open>Matching\<close>

text \<open>
  The regular expression \<open>/\s*\+\s*|\s*,\s*|\s*&\s*/\<close> anchored at the start of a string:
  the rest of the string after the match, or \<open>None\<close>. Each alternative is white space,
  the delimiter, white space; the white space is taken greedily, and giving some of it
  back never helps, since what must follow is not white space.
\<close>

definition matchAlt :: "char \<Rightarrow> string \<Rightarrow> string option" where
  "matchAlt d s =
     (case dropWhile isSpace s of
        [] \<Rightarrow> None
      | c # r \<Rightarrow> if c = d then Some (dropWhile isSpace r) else None)"

definition matchSep :: "string \<Rightarrow> string option" where
  "matchSep s =
     (case matchAlt CHR ''+'' s of
        Some r \<Rightarrow> Some r
      | None \<Rightarrow>
          (case matchAlt CHR '','' s of
             Some r \<Rightarrow> Some r
           | None \<Rightarrow> matchAlt CHR ''&'' s))"

lemma matchSep_shorter: "matchSep s = Some r \<Longrightarrow> length r < length s"
proof -
  have a: "matchAlt d s = Some r \<Longrightarrow> length r < length s" for d
  proof -
    assume m: "matchAlt d s = Some r"
    then obtain c t where d: "dropWhile isSpace s = c # t" and r: "r = dropWhile isSpace t"
      by (auto simp: matchAlt_def split: list.splits if_splits)
    have "length (c # t) \<le> length s"
      using length_dropWhile_le[of isSpace s] d by simp
    moreover have "length r \<le> length t"
      using length_dropWhile_le[of isSpace t] r by simp
    ultimately show ?thesis by simp
  qed
  assume "matchSep s = Some r"
  then show ?thesis
    using a by (auto simp: matchSep_def split: option.splits)
qed

text \<open>
  \<open>s.split(/\s*\+\s*|\s*,\s*|\s*&\s*/g)\<close>. The standard's loop looks for a match at
  each position in turn; where there is none the character joins the current piece
  (kept reversed in the first argument), where there is one the piece ends and the next
  one starts after the match. The piece that is open at the end of the string is the last.
\<close>

function splitSep :: "string \<Rightarrow> string \<Rightarrow> string list" where
  "splitSep piece [] = [rev piece]"
| "splitSep piece (c # cs) =
     (case matchSep (c # cs) of
        Some rest \<Rightarrow> rev piece # splitSep [] rest
      | None \<Rightarrow> splitSep (c # piece) cs)"
  by pat_completeness auto
termination
  by (relation "measure (\<lambda>(piece, s). length s)") (auto dest: matchSep_shorter)

text \<open>
  \<^verbatim>\<open>
  function matchAirspace(ruleVal, inputVal) {
    const r = norm(ruleVal);
    const v = norm(inputVal);
    if (r === "*" || r === "") return true;
    if (v === "") return false;
    const V = v.toUpperCase();
    const reqParts = r.toUpperCase().split(/\s*\+\s*|\s*,\s*|\s*&\s*/g)
      .map(s => s.trim()).filter(Boolean);
    return reqParts.every(part => V.includes(part));
  }
  \<close>
\<close>

definition reqParts :: "string \<Rightarrow> string list" where
  "reqParts r = filter (\<lambda>s. s \<noteq> []) (map trim (splitSep [] (toUpperCase r)))"

definition matchAirspace :: "string option \<Rightarrow> string option \<Rightarrow> bool" where
  "matchAirspace ruleVal inputVal =
     (let r = norm_str ruleVal; v = norm_str inputVal in
      if r = ''*'' \<or> r = [] then True
      else if v = [] then False
      else (let V = toUpperCase v in list_all (\<lambda>part. str_includes V part) (reqParts r)))"

text \<open>
  \<^verbatim>\<open>
  function matchField(ruleVal, inputVal) {
    const r = norm(ruleVal);
    const v = norm(inputVal);
    if (r === "*" || r === "") return true;
    if (v === "") return false;
    return r.toUpperCase() === v.toUpperCase();
  }
  \<close>
\<close>

definition matchField :: "string option \<Rightarrow> string option \<Rightarrow> bool" where
  "matchField ruleVal inputVal =
     (let r = norm_str ruleVal; v = norm_str inputVal in
      if r = ''*'' \<or> r = [] then True
      else if v = [] then False
      else toUpperCase r = toUpperCase v)"

subsection \<open>A host for the examples\<close>

text \<open>
  The examples need one host. \<open>Number_js\<close> reads a string as the standard's
  \<open>StringToNumber\<close> does: white space is trimmed, the empty string is \<open>0\<close>, a binary,
  octal or hexadecimal integer literal, or an optional sign before \<open>Infinity\<close> or a
  decimal literal (digits, an optional fraction, an optional exponent), is its value, and
  anything else is \<open>NaN\<close>. The value is exact: it is the engine's value whenever that
  needs no rounding, as for the short numerals of the examples.
\<close>

definition digitValue :: "char \<Rightarrow> int" where
  "digitValue c =
     (case map_of (zip ''0123456789abcdefABCDEF'' ([0..15] @ [10..15])) c of
        Some v \<Rightarrow> v
      | None \<Rightarrow> 0)"

definition isDigitOf :: "int \<Rightarrow> char \<Rightarrow> bool" where
  "isDigitOf base c =
     (case map_of (zip ''0123456789abcdefABCDEF'' ([0..15] @ [10..15])) c of
        Some v \<Rightarrow> v < base
      | None \<Rightarrow> False)"

definition digitsValue :: "int \<Rightarrow> string \<Rightarrow> int" where
  "digitsValue base ds = foldl (\<lambda>acc c. acc * base + digitValue c) 0 ds"

definition isDigits :: "int \<Rightarrow> string \<Rightarrow> bool" where
  "isDigits base ds = (ds \<noteq> [] \<and> list_all (isDigitOf base) ds)"

definition nonDecimalLiteral :: "string \<Rightarrow> rat option" where
  "nonDecimalLiteral t =
     (case t of
        z # x # ds \<Rightarrow>
          (if z \<noteq> CHR ''0'' then None
           else if (x = CHR ''x'' \<or> x = CHR ''X'') \<and> isDigits 16 ds then Some (of_int (digitsValue 16 ds))
           else if (x = CHR ''o'' \<or> x = CHR ''O'') \<and> isDigits 8 ds then Some (of_int (digitsValue 8 ds))
           else if (x = CHR ''b'' \<or> x = CHR ''B'') \<and> isDigits 2 ds then Some (of_int (digitsValue 2 ds))
           else None)
      | _ \<Rightarrow> None)"

definition exponentPart :: "string \<Rightarrow> int option" where
  "exponentPart e =
     (case e of
        [] \<Rightarrow> Some 0
      | m # x \<Rightarrow>
          (let neg = (case x of c # r \<Rightarrow> c = CHR ''-'' | [] \<Rightarrow> False);
               ds = (case x of c # r \<Rightarrow> if c = CHR ''+'' \<or> c = CHR ''-'' then r else x | [] \<Rightarrow> x)
           in if isDigits 10 ds
              then Some (if neg then - digitsValue 10 ds else digitsValue 10 ds)
              else None))"

definition mantissaPart :: "string \<Rightarrow> rat option" where
  "mantissaPart m =
     (let ip = takeWhile (isDigitOf 10) m; r = dropWhile (isDigitOf 10) m in
      case r of
        [] \<Rightarrow> if ip = [] then None else Some (of_int (digitsValue 10 ip))
      | c # fp \<Rightarrow>
          if c = CHR ''.'' \<and> list_all (isDigitOf 10) fp \<and> (ip \<noteq> [] \<or> fp \<noteq> [])
          then Some (of_int (digitsValue 10 ip) + of_int (digitsValue 10 fp) / 10 ^ length fp)
          else None)"

definition decimalLiteral :: "string \<Rightarrow> rat option" where
  "decimalLiteral u =
     (let isE = (\<lambda>c. c = CHR ''e'' \<or> c = CHR ''E'');
          m = takeWhile (\<lambda>c. \<not> isE c) u;
          e = dropWhile (\<lambda>c. \<not> isE c) u
      in case (mantissaPart m, exponentPart e) of
           (Some v, Some x) \<Rightarrow> Some (if 0 \<le> x then v * 10 ^ nat x else v / 10 ^ nat (- x))
         | _ \<Rightarrow> None)"

definition Number_js :: "string \<Rightarrow> jsnum" where
  "Number_js s =
     (let t = trim s in
      if t = [] then Fin 0
      else (case nonDecimalLiteral t of
              Some v \<Rightarrow> Fin v
            | None \<Rightarrow>
                (let neg = (hd t = CHR ''-'');
                     u = (if hd t = CHR ''+'' \<or> hd t = CHR ''-'' then tl t else t)
                 in if u = ''Infinity'' then (if neg then NegInf else PosInf)
                    else (case decimalLiteral u of
                            Some v \<Rightarrow> Fin (if neg then - v else v)
                          | None \<Rightarrow> NaN))))"

text \<open>
  The decimal digits of an integer that is not negative, and \<open>Number.prototype.toFixed\<close> with two
  fraction digits, as the standard defines it on the value \<open>x\<close>: from \<open>10^21\<close> on the
  result is the number's string; below, with \<open>n\<close> the integer nearest to \<open>100 x\<close> (the
  larger one of two), the digits of \<open>n\<close>, filled with zeros on the left to three digits,
  with a point before the last two.
\<close>

definition digitChar :: "int \<Rightarrow> char" where
  "digitChar d = ''0123456789'' ! nat (d mod 10)"

function decimalDigits :: "int \<Rightarrow> string" where
  "decimalDigits n =
     (if n < 10 then [digitChar n] else decimalDigits (n div 10) @ [digitChar (n mod 10)])"
  by pat_completeness auto
termination
  by (relation "measure nat") auto

declare decimalDigits.simps [simp del]

definition toFixed2 :: "host \<Rightarrow> rat \<Rightarrow> string" where
  "toFixed2 h x =
     (let sign = (if x < 0 then ''-'' else []); ax = \<bar>x\<bar> in
      if 10 ^ 21 \<le> ax then sign @ NumberToString h ax
      else (let n = \<lfloor>ax * 100 + 1 / 2\<rfloor>;
                m = decimalDigits n;
                m' = (if length m \<le> 2 then replicate (3 - length m) CHR ''0'' @ m else m);
                k = length m'
            in sign @ take (k - 2) m' @ ''.'' @ drop (k - 2) m'))"

text \<open>
  The number's string for the example host, by the standard's rule on the decimal form
  \<open>s * 10^(n - k)\<close> of the value, \<open>s\<close> a number of \<open>k\<close> digits that does not end in
  zero. These are the engine's digits whenever they are the shortest that denote the
  binary number, as for every numeral of at most 15 significant digits. A value with no
  finite decimal form is no binary number; the string is empty for it.
\<close>

fun scaleToInteger :: "nat \<Rightarrow> rat \<Rightarrow> int \<Rightarrow> (int \<times> int) option" where
  "scaleToInteger 0 x e = None"
| "scaleToInteger (Suc fuel) x e =
     (if of_int \<lfloor>x\<rfloor> = x then Some (\<lfloor>x\<rfloor>, e) else scaleToInteger fuel (x * 10) (e - 1))"

function dropZeros :: "int \<Rightarrow> int \<Rightarrow> int \<times> int" where
  "dropZeros s e = (if 0 < s \<and> s mod 10 = 0 then dropZeros (s div 10) (e + 1) else (s, e))"
  by pat_completeness auto
termination
  by (relation "measure (\<lambda>(s, e). nat s)") auto

declare dropZeros.simps [simp del]

definition positiveToString :: "rat \<Rightarrow> string" where
  "positiveToString x =
     (case scaleToInteger 1100 x 0 of
        None \<Rightarrow> []
      | Some (s0, e0) \<Rightarrow>
          (let (s, e) = dropZeros s0 e0;
               ds = decimalDigits s;
               k = int (length ds);
               n = k + e
           in if k \<le> n \<and> n \<le> 21 then ds @ replicate (nat (n - k)) CHR ''0''
              else if 0 < n \<and> n \<le> 21 then take (nat n) ds @ ''.'' @ drop (nat n) ds
              else if - 6 < n \<and> n \<le> 0 then ''0.'' @ replicate (nat (- n)) CHR ''0'' @ ds
              else (let ex = n - 1;
                        es = (if ex < 0 then ''-'' else ''+'') @ decimalDigits \<bar>ex\<bar>
                    in if k = 1 then ds @ ''e'' @ es
                       else take 1 ds @ ''.'' @ drop 1 ds @ ''e'' @ es)))"

definition NumberToString_js :: "rat \<Rightarrow> string" where
  "NumberToString_js x =
     (if x = 0 then ''0'' else if x < 0 then ''-'' @ positiveToString (- x) else positiveToString x)"

text \<open>The collation of the locale is not modelled. The example host compares character
  codes, which gives the locale's order on names written in upper-case letters.\<close>

fun compareCodes :: "string \<Rightarrow> string \<Rightarrow> int" where
  "compareCodes [] [] = 0"
| "compareCodes [] (b # bs) = - 1"
| "compareCodes (a # as) [] = 1"
| "compareCodes (a # as) (b # bs) =
     (if (of_char a :: nat) < of_char b then - 1
      else if (of_char b :: nat) < of_char a then 1
      else compareCodes as bs)"

section \<open>The claims' words\<close>

text \<open>
  The definitions of this section follow the specification's sentences, not the code: the
  theorems compare them with the functions translated from the source.
\<close>

text \<open>The required tokens of an airspace rule value: the value is split at every
  \<open>+\<close>, \<open>,\<close> and \<open>&\<close>, each piece is trimmed, and empty pieces are dropped.\<close>

definition isDelim :: "char \<Rightarrow> bool" where
  "isDelim c = (c \<in> set ''+,&'')"

fun segments :: "string \<Rightarrow> string \<Rightarrow> string list" where
  "segments piece [] = [rev piece]"
| "segments piece (c # cs) = (if isDelim c then rev piece # segments [] cs else segments (c # piece) cs)"

definition requiredTokens :: "string \<Rightarrow> string list" where
  "requiredTokens r = filter (\<lambda>t. t \<noteq> []) (map trim (segments [] r))"

text \<open>Two strings are equal ignoring case when they have the same length and, position
  by position, the same character or the two cases of one letter.\<close>

definition sameLetter :: "char \<Rightarrow> char \<Rightarrow> bool" where
  "sameLetter a b = (a = b \<or> (a, b) \<in> set caseTable \<or> (b, a) \<in> set caseTable)"

definition equalIgnoringCase :: "string \<Rightarrow> string \<Rightarrow> bool" where
  "equalIgnoringCase a b = list_all2 sameLetter a b"


section \<open>Departure rules\<close>

text \<open>
  A row of \<open>Dep_Rules.tsv\<close> and the input vector \<open>runTool\<close> builds. Every field is a
  string, or \<open>undefined\<close> when the table has no such column.
\<close>

record DepartureRule =
  DEP_RWY :: "string option"
  LGA_AIRSPACE_REQ :: "string option"
  JFK_AIRSPACE_REQ :: "string option"
  EXIT_GATE_DIR :: "string option"
  EXIT_FIX_REQ :: "string option"
  ACFT_TYPE :: "string option"
  LGA_LDG_CLASS_REQ :: "string option"
  OUTPUT :: "string option"
  NOTES :: "string option"
  PRIORITY :: "string option"

record RuleInputs =
  in_DEP_RWY :: "string option"
  in_LGA_LDG_CLASS :: "string option"
  in_LGA_AIRSPACE :: "string option"
  in_JFK_AIRSPACE :: "string option"
  in_EXIT_GATE_DIR :: "string option"
  in_EXIT_FIX :: "string option"
  in_ACFT_TYPE :: "string option"

text \<open>
  \<^verbatim>\<open>
  function pickDepartureRule(inputs) {
    const matches = depRulesRows.filter(r =>
      matchField(r.DEP_RWY, inputs.DEP_RWY) &&
      matchAirspace(r.LGA_AIRSPACE_REQ, inputs.LGA_AIRSPACE) &&
      matchAirspace(r.JFK_AIRSPACE_REQ, inputs.JFK_AIRSPACE) &&
      matchField(r.EXIT_GATE_DIR, inputs.EXIT_GATE_DIR) &&
      matchField(r.EXIT_FIX_REQ, inputs.EXIT_FIX) &&
      matchField(r.ACFT_TYPE, inputs.ACFT_TYPE) &&
      matchField(r.LGA_LDG_CLASS_REQ, inputs.LGA_LDG_CLASS)
    );
    if (!matches.length) return null;
    matches.sort((a, b) => Number(a.PRIORITY) - Number(b.PRIORITY));
    return matches[0];
  }
  \<close>
  The table \<open>depRulesRows\<close> is a global of the program and an argument of the model.
  \<open>filter\<close> makes a new array, so the sort leaves the table as it was. \<open>satisfies\<close> is
  the predicate of the filter.
\<close>

definition satisfies :: "DepartureRule \<Rightarrow> RuleInputs \<Rightarrow> bool" where
  "satisfies r inputs =
     (matchField (DEP_RWY r) (in_DEP_RWY inputs) \<and>
      matchAirspace (LGA_AIRSPACE_REQ r) (in_LGA_AIRSPACE inputs) \<and>
      matchAirspace (JFK_AIRSPACE_REQ r) (in_JFK_AIRSPACE inputs) \<and>
      matchField (EXIT_GATE_DIR r) (in_EXIT_GATE_DIR inputs) \<and>
      matchField (EXIT_FIX_REQ r) (in_EXIT_FIX inputs) \<and>
      matchField (ACFT_TYPE r) (in_ACFT_TYPE inputs) \<and>
      matchField (LGA_LDG_CLASS_REQ r) (in_LGA_LDG_CLASS inputs))"

text \<open>\<open>Number(r.PRIORITY)\<close>, and the comparison function of the sort.\<close>

definition priorityOf :: "host \<Rightarrow> DepartureRule \<Rightarrow> jsnum" where
  "priorityOf h r = NumberOf h (PRIORITY r)"

definition byPriority :: "host \<Rightarrow> DepartureRule \<Rightarrow> DepartureRule \<Rightarrow> jsnum" where
  "byPriority h a b = js_sub (priorityOf h a) (priorityOf h b)"

definition pickDepartureRule :: "host \<Rightarrow> DepartureRule list \<Rightarrow> RuleInputs \<Rightarrow> DepartureRule option" where
  "pickDepartureRule h depRulesRows inputs =
     (let matches = filter (\<lambda>r. satisfies r inputs) depRulesRows in
      if matches = [] then None
      else (case Array_sort (byPriority h) matches of
              [] \<Rightarrow> None
            | first # rest \<Rightarrow> Some first))"

text \<open>
  \<^verbatim>\<open>
  function isClimbViaSidFromProcedure(procStr) {
    const p = norm(procStr).toUpperCase();
    if (!p) return false;
    const pNorm = p.replace(/\s+/g, ".");
    if (pNorm.includes("LGA7.MASPETH")) return true;
    if (pNorm.includes("LGA7.CONEY")) return true;
    const rnav = ["HOPEA","JUTES","TNNIS","NTHNS","GLDMN"];
    return rnav.some(k => pNorm.includes(k + "#") || pNorm.includes(k));
  }
  \<close>
\<close>

definition isClimbViaSidFromProcedure :: "string option \<Rightarrow> bool" where
  "isClimbViaSidFromProcedure procStr =
     (let p = toUpperCase (norm_str procStr) in
      if p = [] then False
      else (let pNorm = replaceSpaceRuns False p in
            if str_includes pNorm ''LGA7.MASPETH'' then True
            else if str_includes pNorm ''LGA7.CONEY'' then True
            else list_ex (\<lambda>k. str_includes pNorm (k @ ''#'') \<or> str_includes pNorm k)
                   [''HOPEA'', ''JUTES'', ''TNNIS'', ''NTHNS'', ''GLDMN'']))"

text \<open>
  The climb instruction \<open>runTool\<close> shows for the rule it picked:
  \<^verbatim>\<open>
  const rule = pickDepartureRule(inputs);
  ...
  if (!rule) { depOut.textContent = "No matching departure rule found."; }
  else {
    const proc = norm(rule.OUTPUT);
    const climbVia = isClimbViaSidFromProcedure(proc);
    const climbText = climbVia ? "CLIMB VIA SID" : "CLIMB AND MAINTAIN 5,000";
  \<close>
  \<open>None\<close> stands for the branch that shows no instruction.
\<close>

definition climbText :: "DepartureRule \<Rightarrow> string" where
  "climbText rule =
     (let proc = norm_str (OUTPUT rule); climbVia = isClimbViaSidFromProcedure (Some proc) in
      if climbVia then ''CLIMB VIA SID'' else ''CLIMB AND MAINTAIN 5,000'')"

definition runTool_climbText :: "host \<Rightarrow> DepartureRule list \<Rightarrow> RuleInputs \<Rightarrow> string option" where
  "runTool_climbText h depRulesRows inputs =
     (case pickDepartureRule h depRulesRows inputs of
        None \<Rightarrow> None
      | Some rule \<Rightarrow> Some (climbText rule))"

text \<open>
  The rows and the input vector of the end-to-end scenario. The scenario leaves the notes
  of the row and the aircraft type of the input open. \<open>anyRule\<close> is a row whose match
  fields are all wild cards.
\<close>

definition scenarioRule :: "string option \<Rightarrow> DepartureRule" where
  "scenarioRule notes =
     \<lparr> DEP_RWY = Some ''4'', LGA_AIRSPACE_REQ = Some ''N'', JFK_AIRSPACE_REQ = Some ''*'',
       EXIT_GATE_DIR = Some ''N'', EXIT_FIX_REQ = Some ''*'', ACFT_TYPE = Some ''*'',
       LGA_LDG_CLASS_REQ = Some ''*'', OUTPUT = Some ''LGA7.MASPETH'', NOTES = notes,
       PRIORITY = Some ''1'' \<rparr>"

definition scenarioInputs :: "string option \<Rightarrow> RuleInputs" where
  "scenarioInputs acftType =
     \<lparr> in_DEP_RWY = Some ''4'', in_LGA_LDG_CLASS = Some ''A'', in_LGA_AIRSPACE = Some ''N+S'',
       in_JFK_AIRSPACE = Some ''NE'', in_EXIT_GATE_DIR = Some ''N'', in_EXIT_FIX = Some ''WHITE'',
       in_ACFT_TYPE = acftType \<rparr>"

definition anyRule :: "string \<Rightarrow> string \<Rightarrow> DepartureRule" where
  "anyRule output priority =
     \<lparr> DEP_RWY = Some ''*'', LGA_AIRSPACE_REQ = Some ''*'', JFK_AIRSPACE_REQ = Some ''*'',
       EXIT_GATE_DIR = Some ''*'', EXIT_FIX_REQ = Some ''*'', ACFT_TYPE = Some ''*'',
       LGA_LDG_CLASS_REQ = Some ''*'', OUTPUT = Some output, NOTES = None,
       PRIORITY = Some priority \<rparr>"

section \<open>Weather reports\<close>

subsection \<open>The report line of a station\<close>

text \<open>\<open>s.split(c)\<close> for a separator of one character; the first argument is the piece
  that is open, reversed.\<close>

fun splitChar :: "char \<Rightarrow> string \<Rightarrow> string \<Rightarrow> string list" where
  "splitChar sep piece [] = [rev piece]"
| "splitChar sep piece (c # cs) =
     (if c = sep then rev piece # splitChar sep [] cs else splitChar sep (c # piece) cs)"

text \<open>
  \<^verbatim>\<open>
  async function fetchVatsimMetar(icao) {
    const id = norm(icao).toUpperCase();
    const url = `https://metar.vatsim.net/metar.php?id=${encodeURIComponent(id)}`;
    const res = await fetch(url, { cache: "no-store" });
    if (!res.ok) throw new Error(`METAR fetch failed (${res.status})`);
    const text = await res.text();
    const lines = text.replace(/\r/g, "").split("\n").map(l => l.trim()).filter(Boolean);
    const exact = lines.find(l => l.toUpperCase().startsWith(id + " "));
    return exact || lines[0] || `${id} (no METAR)`;
  }
  \<close>
  The response of the weather source is an argument of the model, the exception a value.
\<close>

record Response =
  ok :: bool
  status :: nat
  body :: string

datatype error = MetarFetchFailed nat

definition responseLines :: "string \<Rightarrow> string list" where
  "responseLines text =
     filter (\<lambda>l. l \<noteq> []) (map trim (splitChar CHR 0x0A [] (filter (\<lambda>c. c \<noteq> CHR 0x0D) text)))"

definition startsWithId :: "string \<Rightarrow> string \<Rightarrow> bool" where
  "startsWithId ident l = str_startsWith (toUpperCase l) (ident @ '' '')"

definition fetchVatsimMetar :: "Response \<Rightarrow> string option \<Rightarrow> error + string" where
  "fetchVatsimMetar res icao =
     (let ident = toUpperCase (norm_str icao) in
      if \<not> ok res then Inl (MetarFetchFailed (status res))
      else (let lines = responseLines (body res);
                exact = find (startsWithId ident) lines
            in case exact of
                 Some l \<Rightarrow> Inr l
               | None \<Rightarrow> (case lines of l # ls \<Rightarrow> Inr l | [] \<Rightarrow> Inr (ident @ '' (no METAR)''))))"

subsection \<open>Suggested runway configurations\<close>









subsection \<open>Visibility, ceiling and flight category\<close>

text \<open>The classes \<open>\d\<close> and \<open>\w\<close> of a regular expression, and the test for a word
  boundary after a word character: the end of the string or a character outside \<open>\w\<close>.\<close>

definition isDigit :: "char \<Rightarrow> bool" where
  "isDigit c = (c \<in> set ''0123456789'')"

definition isWordChar :: "char \<Rightarrow> bool" where
  "isWordChar c =
     (c \<in> set ''abcdefghijklmnopqrstuvwxyzABCDEFGHIJKLMNOPQRSTUVWXYZ0123456789_'')"

definition boundaryAfterWord :: "string \<Rightarrow> bool" where
  "boundaryAfterWord rest = (case rest of [] \<Rightarrow> True | c # cs \<Rightarrow> \<not> isWordChar c)"

definition firstSome :: "'a option list \<Rightarrow> 'a option" where
  "firstSome xs = (case filter (\<lambda>x. x \<noteq> None) xs of [] \<Rightarrow> None | x # rest \<Rightarrow> x)"

text \<open>
  \<open>/(\d+\s+\d+\/\d+|\d+\/\d+|\d+)\s*SM\b/\<close> anchored at the start of a string: the text
  of group 1, or \<open>None\<close>. The alternatives are tried in order, each with what follows
  the group. Every repetition is greedy, and giving characters back never helps: after
  fewer digits comes a digit, after less white space comes white space, and neither is
  what the pattern asks for next.
\<close>

definition visTail :: "string \<Rightarrow> bool" where
  "visTail s =
     (case dropWhile isSpace s of
        c1 # c2 # rest \<Rightarrow> c1 = CHR ''S'' \<and> c2 = CHR ''M'' \<and> boundaryAfterWord rest
      | _ \<Rightarrow> False)"

definition visMixed :: "string \<Rightarrow> string option" where
  "visMixed s =
     (let d1 = takeWhile isDigit s; r1 = dropWhile isDigit s;
          ws = takeWhile isSpace r1; r2 = dropWhile isSpace r1;
          d2 = takeWhile isDigit r2; r3 = dropWhile isDigit r2
      in case r3 of
           [] \<Rightarrow> None
         | c # r4 \<Rightarrow>
             (let d3 = takeWhile isDigit r4; r5 = dropWhile isDigit r4 in
              if d1 \<noteq> [] \<and> ws \<noteq> [] \<and> d2 \<noteq> [] \<and> c = CHR ''/'' \<and> d3 \<noteq> [] \<and> visTail r5
              then Some (d1 @ ws @ d2 @ ''/'' @ d3) else None))"

definition visFraction :: "string \<Rightarrow> string option" where
  "visFraction s =
     (let d1 = takeWhile isDigit s; r1 = dropWhile isDigit s in
      case r1 of
        [] \<Rightarrow> None
      | c # r2 \<Rightarrow>
          (let d2 = takeWhile isDigit r2; r3 = dropWhile isDigit r2 in
           if d1 \<noteq> [] \<and> c = CHR ''/'' \<and> d2 \<noteq> [] \<and> visTail r3
           then Some (d1 @ ''/'' @ d2) else None))"

definition visWhole :: "string \<Rightarrow> string option" where
  "visWhole s =
     (let d1 = takeWhile isDigit s; r1 = dropWhile isDigit s in
      if d1 \<noteq> [] \<and> visTail r1 then Some d1 else None)"

definition matchVisAt :: "string \<Rightarrow> string option" where
  "matchVisAt s = firstSome [visMixed s, visFraction s, visWhole s]"

text \<open>\<open>metar.match(...)\<close>: the match that starts first.\<close>

fun findVis :: "string \<Rightarrow> string option" where
  "findVis [] = None"
| "findVis (c # cs) = (case matchVisAt (c # cs) of Some g \<Rightarrow> Some g | None \<Rightarrow> findVis cs)"

text \<open>\<open>s.split(/\s+/)\<close>\<close>

lemma dropWhile_shorter: "length (dropWhile P xs) < Suc (length xs)"
  using length_dropWhile_le[of P xs] by simp

function splitSpaces :: "string \<Rightarrow> string \<Rightarrow> string list" where
  "splitSpaces piece [] = [rev piece]"
| "splitSpaces piece (c # cs) =
     (if isSpace c then rev piece # splitSpaces [] (dropWhile isSpace cs)
      else splitSpaces (c # piece) cs)"
  by pat_completeness auto
termination
  by (relation "measure (\<lambda>(piece, s). length s)") (auto simp: dropWhile_shorter)

text \<open>
  \<^verbatim>\<open>
  function parseVisSM(metar) {
    const m = metar.match(/(\d+\s+\d+\/\d+|\d+\/\d+|\d+)\s*SM\b/);
    if (!m) return NaN;
    const raw = m[1].trim();
    if (raw.includes(" ")) {
      const [whole, frac] = raw.split(/\s+/);
      const [a,b] = frac.split("/").map(Number);
      const w = Number(whole);
      if (!Number.isFinite(w) || !Number.isFinite(a) || !Number.isFinite(b) || b === 0) return NaN;
      return w + (a/b);
    }
    if (raw.includes("/")) {
      const [a,b] = raw.split("/").map(Number);
      if (!Number.isFinite(a) || !Number.isFinite(b) || b === 0) return NaN;
      return a/b;
    }
    const n = Number(raw);
    return Number.isFinite(n) ? n : NaN;
  }
  \<close>
  A destructured element that the array does not have is \<open>undefined\<close>, which is not
  finite. (In the first branch \<open>raw\<close> holds a space, so the split has a second piece.)
  The sum and the quotient are exact.
\<close>

definition finiteQuotient :: "jsnum option \<Rightarrow> jsnum option \<Rightarrow> rat option" where
  "finiteQuotient a b =
     (case (a, b) of
        (Some (Fin x), Some (Fin y)) \<Rightarrow> if y = 0 then None else Some (x / y)
      | _ \<Rightarrow> None)"

definition nth_opt :: "'a list \<Rightarrow> nat \<Rightarrow> 'a option" where
  "nth_opt xs i = (if i < length xs then Some (xs ! i) else None)"

definition parseVisSM :: "host \<Rightarrow> string \<Rightarrow> jsnum" where
  "parseVisSM h metar =
     (case findVis metar of
        None \<Rightarrow> NaN
      | Some g \<Rightarrow>
          (let raw = trim g in
           if CHR '' '' \<in> set raw then
             (let parts = splitSpaces [] raw;
                  whole = (case nth_opt parts 0 of Some x \<Rightarrow> x | None \<Rightarrow> []);
                  frac = (case nth_opt parts 1 of Some x \<Rightarrow> x | None \<Rightarrow> []);
                  ab = map (Number h) (splitChar CHR ''/'' [] frac)
              in case (Number h whole, finiteQuotient (nth_opt ab 0) (nth_opt ab 1)) of
                   (Fin w, Some q) \<Rightarrow> Fin (w + q)
                 | _ \<Rightarrow> NaN)
           else if CHR ''/'' \<in> set raw then
             (let ab = map (Number h) (splitChar CHR ''/'' [] raw)
              in case finiteQuotient (nth_opt ab 0) (nth_opt ab 1) of
                   Some q \<Rightarrow> Fin q
                 | None \<Rightarrow> NaN)
           else (case Number h raw of Fin n \<Rightarrow> Fin n | _ \<Rightarrow> NaN)))"

text \<open>
  \<open>/\b(BKN|OVC|VV)(\d{3})\b/\<close> without its first \<open>\b\<close>, anchored at the start of a
  string: group 2 and the rest of the string after the match.
\<close>

definition layerOf :: "string \<Rightarrow> string \<Rightarrow> (string \<times> string) option" where
  "layerOf kind s =
     (if str_startsWith s kind then
        (let t = drop (length kind) s; ds = take 3 t; rest = drop 3 t in
         if length ds = 3 \<and> list_all isDigit ds \<and> boundaryAfterWord rest
         then Some (ds, rest) else None)
      else None)"

definition matchLayer :: "string \<Rightarrow> (string \<times> string) option" where
  "matchLayer s = firstSome [layerOf ''BKN'' s, layerOf ''OVC'' s, layerOf ''VV'' s]"

lemma matchLayer_shorter: "matchLayer s = Some (ds, rest) \<Longrightarrow> length rest < length s"
proof -
  have "layerOf kind s = Some (ds, rest) \<Longrightarrow> kind \<noteq> [] \<Longrightarrow> length rest < length s" for kind
    by (cases s; cases kind) (auto simp: layerOf_def Let_def split: if_splits)
  moreover assume "matchLayer s = Some (ds, rest)"
  ultimately show ?thesis
    by (auto simp: matchLayer_def firstSome_def split: if_splits)
qed

text \<open>
  \<open>metar.matchAll(/\b(BKN|OVC|VV)(\d{3})\b/g)\<close>: group 2 of every match, from left to
  right; the search goes on after each match. The flag says that the character before is
  a word character; the first \<open>\b\<close> holds where it is not, since a match starts with a
  letter.
\<close>

function ceilLayers :: "bool \<Rightarrow> string \<Rightarrow> string list" where
  "ceilLayers afterWord [] = []"
| "ceilLayers afterWord (c # cs) =
     (case (if afterWord then None else matchLayer (c # cs)) of
        Some (ds, rest) \<Rightarrow> ds # ceilLayers True rest
      | None \<Rightarrow> ceilLayers (isWordChar c) cs)"
  by pat_completeness auto
termination
  by (relation "measure (\<lambda>(afterWord, s). length s)")
     (auto split: if_splits dest: matchLayer_shorter)

text \<open>
  \<^verbatim>\<open>
  function parseCeilFt(metar) {
    const layers = [...metar.matchAll(/\b(BKN|OVC|VV)(\d{3})\b/g)];
    if (!layers.length) return Infinity;
    let minFt = Infinity;
    for (const x of layers) {
      const h = Number(x[2]);
      if (Number.isFinite(h)) minFt = Math.min(minFt, h * 100);
    }
    return minFt;
  }
  \<close>
\<close>

fun js_min :: "jsnum \<Rightarrow> jsnum \<Rightarrow> jsnum" where
  "js_min NaN b = NaN"
| "js_min a NaN = NaN"
| "js_min NegInf b = NegInf"
| "js_min a NegInf = NegInf"
| "js_min PosInf b = b"
| "js_min a PosInf = a"
| "js_min (Fin a) (Fin b) = Fin (min a b)"

definition parseCeilFt :: "host \<Rightarrow> string \<Rightarrow> jsnum" where
  "parseCeilFt h metar =
     (let layers = ceilLayers False metar in
      if layers = [] then PosInf
      else foldl (\<lambda>minFt x. case Number h x of Fin hundreds \<Rightarrow> js_min minFt (Fin (hundreds * 100))
                                | _ \<Rightarrow> minFt)
             PosInf layers)"

text \<open>
  \<^verbatim>\<open>
  function flightCategory(metar) {
    const m = norm(metar);
    if (!m) return { cat: "\<emdash>", cls: "" };
    const vis = parseVisSM(m);
    const ceil = parseCeilFt(m);
    if ((Number.isFinite(ceil) && ceil < 500) || (Number.isFinite(vis) && vis < 1)) return { cat: "LIFR", cls: "wxCatLIFR" };
    if ((Number.isFinite(ceil) && ceil < 1000) || (Number.isFinite(vis) && vis < 3)) return { cat: "IFR", cls: "wxCatIFR" };
    if ((Number.isFinite(ceil) && ceil < 3000) || (Number.isFinite(vis) && vis < 5)) return { cat: "MVFR", cls: "wxCatMVFR" };
    return { cat: "VFR", cls: "wxCatVFR" };
  }
  \<close>
  The category of a blank report is the dash U+2014, written here in the three bytes of
  its UTF-8 form.
\<close>

definition emDash :: string where
  "emDash = [CHR 0xE2, CHR 0x80, CHR 0x94]"

record Category =
  cat :: string
  cls :: string

definition flightCategory :: "host \<Rightarrow> string option \<Rightarrow> Category" where
  "flightCategory h metar =
     (let m = norm_str metar in
      if m = [] then \<lparr> cat = emDash, cls = [] \<rparr>
      else (let vis = parseVisSM h m; ceil = parseCeilFt h m in
            if (isFinite ceil \<and> js_lt ceil (Fin 500)) \<or> (isFinite vis \<and> js_lt vis (Fin 1))
              then \<lparr> cat = ''LIFR'', cls = ''wxCatLIFR'' \<rparr>
            else if (isFinite ceil \<and> js_lt ceil (Fin 1000)) \<or> (isFinite vis \<and> js_lt vis (Fin 3))
              then \<lparr> cat = ''IFR'', cls = ''wxCatIFR'' \<rparr>
            else if (isFinite ceil \<and> js_lt ceil (Fin 3000)) \<or> (isFinite vis \<and> js_lt vis (Fin 5))
              then \<lparr> cat = ''MVFR'', cls = ''wxCatMVFR'' \<rparr>
            else \<lparr> cat = ''VFR'', cls = ''wxCatVFR'' \<rparr>))"

section \<open>Navigation aids\<close>

text \<open>
  \<^verbatim>\<open>
  function freqDisplayFromFrequencyKhz(raw) {
    const s = norm(raw);
    if (!s) return "(unknown)";
    const n = Number(s);
    if (!Number.isFinite(n)) return s;
    if (n >= 100000) return `${(n / 1000).toFixed(2)} MHz`;
    return `${n} kHz`;
  }
  \<close>
  The quotient \<open>n / 1000\<close> is exact.
\<close>

definition freqDisplayFromFrequencyKhz :: "host \<Rightarrow> string option \<Rightarrow> string" where
  "freqDisplayFromFrequencyKhz h raw =
     (let s = norm_str raw in
      if s = [] then ''(unknown)''
      else (case Number h s of
              Fin n \<Rightarrow>
                if 100000 \<le> n then toFixed2 h (n / 1000) @ '' MHz''
                else NumberToString h n @ '' kHz''
            | _ \<Rightarrow> s))"

text \<open>
  \<^verbatim>\<open>
  function toNumberOrNaN(v) {
    const n = Number(norm(v));
    return Number.isFinite(n) ? n : NaN;
  }
  \<close>
\<close>

definition toNumberOrNaN :: "host \<Rightarrow> string option \<Rightarrow> jsnum" where
  "toNumberOrNaN h v = (case Number h (norm_str v) of Fin n \<Rightarrow> Fin n | _ \<Rightarrow> NaN)"

text \<open>A row of \<open>NAVAIDs.tsv\<close>, and the record \<open>buildNavaidMaps\<close> makes of it (its
  field \<open>TYPE\<close> is written \<open>TYPE'\<close>). The entry of the search index is the record
  with its search key.\<close>

record NavaidRow =
  row_ident :: "string option"
  row_name :: "string option"
  row_type :: "string option"
  row_frequency_khz :: "string option"
  row_latitude_deg :: "string option"
  row_longitude_deg :: "string option"

record Navaid =
  KIND :: string
  IDENT :: string
  NAME :: string
  TYPE' :: string
  FREQ_RAW :: string
  FREQ_DISPLAY :: string
  LAT :: jsnum
  LON :: jsnum
  DIST_NM :: jsnum

record SearchEntry = Navaid +
  key :: string

record NavaidIndex =
  navaidByIdent :: "(string \<times> Navaid list) list"
  navaidSearchIndex :: "SearchEntry list"

definition KLGA_LAT :: rat where
  "KLGA_LAT = 407772 / 10000"

definition KLGA_LON :: rat where
  "KLGA_LON = - (738726 / 10000)"

text \<open>
  \<open>a || b\<close> on numbers is \<open>a\<close> unless \<open>a\<close> is zero or \<open>NaN\<close>. The two comparison
  functions of \<open>buildNavaidMaps\<close>:
  \<^verbatim>\<open>
  (a, b) => (a.DIST_NM - b.DIST_NM) || a.NAME.localeCompare(b.NAME)
  (a, b) => (a.DIST_NM - b.DIST_NM) || a.IDENT.localeCompare(b.IDENT)
  \<close>
\<close>

definition js_or :: "jsnum \<Rightarrow> jsnum \<Rightarrow> jsnum" where
  "js_or a b = (if a = NaN \<or> a = Fin 0 then b else a)"

definition byDistanceThenName :: "host \<Rightarrow> Navaid \<Rightarrow> Navaid \<Rightarrow> jsnum" where
  "byDistanceThenName h a b =
     js_or (js_sub (DIST_NM a) (DIST_NM b)) (Fin (of_int (localeCompare h (NAME a) (NAME b))))"

definition byDistanceThenIdent :: "host \<Rightarrow> SearchEntry \<Rightarrow> SearchEntry \<Rightarrow> jsnum" where
  "byDistanceThenIdent h a b =
     js_or (js_sub (DIST_NM a) (DIST_NM b)) (Fin (of_int (localeCompare h (IDENT a) (IDENT b))))"

text \<open>
  \<^verbatim>\<open>
  function buildNavaidMaps(rows) {
    navaidByIdent = new Map();
    navaidSearchIndex = [];
    for (const r of rows) {
      const ident = norm(r.ident).toUpperCase();
      if (!ident) continue;
      const lat = toNumberOrNaN(r.latitude_deg);
      const lon = toNumberOrNaN(r.longitude_deg);
      const hasPos = Number.isFinite(lat) && Number.isFinite(lon);
      const dist = hasPos ? haversineNM(KLGA_LAT, KLGA_LON, lat, lon) : Infinity;
      const obj = { KIND: "NAVAID", IDENT: ident, NAME: norm(r.name),
        TYPE: norm(r.type).toUpperCase(), FREQ_RAW: norm(r.frequency_khz),
        FREQ_DISPLAY: freqDisplayFromFrequencyKhz(r.frequency_khz),
        LAT: lat, LON: lon, DIST_NM: dist };
      if (!navaidByIdent.has(ident)) navaidByIdent.set(ident, []);
      navaidByIdent.get(ident).push(obj);
      const key = `${obj.IDENT} ${obj.NAME} ${obj.TYPE}`.toUpperCase();
      navaidSearchIndex.push({ ...obj, key });
    }
    for (const [, list] of navaidByIdent.entries()) {
      list.sort((a, b) => (a.DIST_NM - b.DIST_NM) || a.NAME.localeCompare(b.NAME));
    }
    navaidSearchIndex.sort((a, b) =>
      (a.DIST_NM - b.DIST_NM) || a.IDENT.localeCompare(b.IDENT)
    );
  }
  \<close>
  \<open>haversineNM\<close> is floating-point trigonometry, which the model does not evaluate: the
  function is an argument of the model. The map keeps its keys in the order in which they
  were set, as an association list does.
\<close>

definition navaidOf ::
  "host \<Rightarrow> (rat \<Rightarrow> rat \<Rightarrow> rat \<Rightarrow> rat \<Rightarrow> jsnum) \<Rightarrow> NavaidRow \<Rightarrow> Navaid" where
  "navaidOf h haversineNM r =
     (let lat = toNumberOrNaN h (row_latitude_deg r);
          lon = toNumberOrNaN h (row_longitude_deg r);
          dist = (case (lat, lon) of
                    (Fin la, Fin lo) \<Rightarrow> haversineNM KLGA_LAT KLGA_LON la lo
                  | _ \<Rightarrow> PosInf)
      in \<lparr> KIND = ''NAVAID'',
           IDENT = toUpperCase (norm_str (row_ident r)),
           NAME = norm_str (row_name r),
           TYPE' = toUpperCase (norm_str (row_type r)),
           FREQ_RAW = norm_str (row_frequency_khz r),
           FREQ_DISPLAY = freqDisplayFromFrequencyKhz h (row_frequency_khz r),
           LAT = lat, LON = lon, DIST_NM = dist \<rparr>)"

definition pushToGroup :: "string \<Rightarrow> Navaid \<Rightarrow> (string \<times> Navaid list) list \<Rightarrow> (string \<times> Navaid list) list" where
  "pushToGroup ident obj groups =
     (if ident \<in> set (map fst groups)
        then map (\<lambda>(k, list). if k = ident then (k, list @ [obj]) else (k, list)) groups
      else groups @ [(ident, [obj])])"

definition addRow ::
  "host \<Rightarrow> (rat \<Rightarrow> rat \<Rightarrow> rat \<Rightarrow> rat \<Rightarrow> jsnum) \<Rightarrow> NavaidIndex \<Rightarrow> NavaidRow \<Rightarrow> NavaidIndex" where
  "addRow h haversineNM index r =
     (let ident = toUpperCase (norm_str (row_ident r)) in
      if ident = [] then index
      else (let obj = navaidOf h haversineNM r;
                searchKey = toUpperCase (IDENT obj @ '' '' @ NAME obj @ '' '' @ TYPE' obj)
            in \<lparr> navaidByIdent = pushToGroup ident obj (navaidByIdent index),
                 navaidSearchIndex = navaidSearchIndex index @ [Navaid.extend obj \<lparr> key = searchKey \<rparr>] \<rparr>))"

definition buildNavaidMaps ::
  "host \<Rightarrow> (rat \<Rightarrow> rat \<Rightarrow> rat \<Rightarrow> rat \<Rightarrow> jsnum) \<Rightarrow> NavaidRow list \<Rightarrow> NavaidIndex" where
  "buildNavaidMaps h haversineNM rows =
     (let filled = foldl (addRow h haversineNM) \<lparr> navaidByIdent = [], navaidSearchIndex = [] \<rparr> rows
      in \<lparr> navaidByIdent =
             map (\<lambda>(k, list). (k, Array_sort (byDistanceThenName h) list)) (navaidByIdent filled),
           navaidSearchIndex = Array_sort (byDistanceThenIdent h) (navaidSearchIndex filled) \<rparr>)"

text \<open>
  Two rows with one identifier for the examples: a navigation aid near Perth, Australia,
  and one whose latitude and longitude cells are empty. \<open>flatDistance\<close> stands in for
  \<open>haversineNM\<close> where an example needs some distance function: sixty miles for every
  degree of difference in latitude and in longitude. It is not the great-circle distance.
\<close>

definition perthRow :: NavaidRow where
  "perthRow =
     \<lparr> row_ident = Some ''PH'', row_name = Some ''PERTH'', row_type = Some ''VOR'',
       row_frequency_khz = Some ''113700'', row_latitude_deg = Some ''-31.94'',
       row_longitude_deg = Some ''115.97'' \<rparr>"

definition blankRow :: NavaidRow where
  "blankRow =
     \<lparr> row_ident = Some ''PH'', row_name = Some ''NO POSITION'', row_type = Some ''NDB'',
       row_frequency_khz = Some ''385'', row_latitude_deg = Some [],
       row_longitude_deg = Some [] \<rparr>"

definition flatDistance :: "rat \<Rightarrow> rat \<Rightarrow> rat \<Rightarrow> rat \<Rightarrow> jsnum" where
  "flatDistance lat1 lon1 lat2 lon2 = Fin (60 * (\<bar>lat2 - lat1\<bar> + \<bar>lon2 - lon1\<bar>))"

definition groupOf :: "NavaidIndex \<Rightarrow> string \<Rightarrow> Navaid list" where
  "groupOf index ident = (case map_of (navaidByIdent index) ident of Some list \<Rightarrow> list | None \<Rightarrow> [])"

text \<open>
  The order of a list of navigation aids with one identifier: by distance, a record with
  a finite distance before one with an infinite distance, and by name where the
  distances are equal, two infinite ones included.
\<close>

definition precedes :: "host \<Rightarrow> Navaid \<Rightarrow> Navaid \<Rightarrow> bool" where
  "precedes h a b =
     (js_lt (DIST_NM a) (DIST_NM b)
      \<or> (DIST_NM a = DIST_NM b \<and> localeCompare h (NAME a) (NAME b) \<le> 0))"

text \<open>Every record of every group has the property \<open>Q\<close>.\<close>

definition groupsOk :: "(Navaid \<Rightarrow> bool) \<Rightarrow> (string \<times> Navaid list) list \<Rightarrow> bool" where
  "groupsOk Q groups = list_all (\<lambda>(k, list). list_all Q list) groups"


definition jsHost :: host where
  "jsHost = \<lparr> Number = Number_js, NumberToString = NumberToString_js, localeCompare = compareCodes \<rparr>"

section \<open>Strings: lemmas\<close>



lemma trim_spaces_left: "list_all isSpace ws \<Longrightarrow> trim (ws @ x) = trim x"
  by (simp add: trim_def dropWhile_append list_all_iff)

lemma dropWhile_all: "list_all P xs \<Longrightarrow> dropWhile P xs = []"
  by (simp add: list_all_iff)

lemma trim_spaces_right: "list_all isSpace ws \<Longrightarrow> trim (x @ ws) = trim x"
proof -
  assume a: "list_all isSpace ws"
  have r: "dropWhile isSpace (rev ws @ y) = dropWhile isSpace y" for y
    using a by (simp add: dropWhile_append list_all_iff)
  show ?thesis
  proof (cases "list_all isSpace x")
    case True
    then have "dropWhile isSpace (x @ ws) = []" "dropWhile isSpace x = []"
      using a by (simp_all add: list_all_iff)
    then have "trim (x @ ws) = []" "trim x = []"
      unfolding trim_def by (simp_all only: rev.simps dropWhile.simps)
    then show ?thesis by simp
  next
    case False
    then have "dropWhile isSpace (x @ ws) = dropWhile isSpace x @ ws"
      by (auto simp: dropWhile_append list_all_iff)
    then show ?thesis using r by (simp add: trim_def)
  qed
qed

lemma space_not_delim: "isSpace c \<Longrightarrow> \<not> isDelim c"
  by (auto simp: isSpace_def isDelim_def)

lemma segments_append_nodelim:
  "list_all (\<lambda>c. \<not> isDelim c) ws \<Longrightarrow> segments piece (ws @ s) = segments (rev ws @ piece) s"
  by (induction ws arbitrary: piece) auto

lemma segments_leading_spaces:
  "list_all isSpace ws \<Longrightarrow> map trim (segments (piece @ rev ws) s) = map trim (segments piece s)"
proof (induction s arbitrary: piece)
  case Nil
  then show ?case by (simp add: trim_spaces_left)
next
  case (Cons c cs)
  show ?case
  proof (cases "isDelim c")
    case True
    then show ?thesis using Cons.prems by (simp add: trim_spaces_left)
  next
    case False
    then show ?thesis using Cons.IH[OF Cons.prems, of "c # piece"] by simp
  qed
qed

lemma matchAlt_SomeD:
  "matchAlt d s = Some rest \<Longrightarrow>
     s = takeWhile isSpace s @ d # takeWhile isSpace (tl (dropWhile isSpace s)) @ rest"
proof -
  assume m: "matchAlt d s = Some rest"
  then obtain t where d: "dropWhile isSpace s = d # t" and r: "rest = dropWhile isSpace t"
    by (auto simp: matchAlt_def split: list.splits if_splits)
  have "s = takeWhile isSpace s @ dropWhile isSpace s" by simp
  also have "\<dots> = takeWhile isSpace s @ d # (takeWhile isSpace t @ dropWhile isSpace t)"
    using d by simp
  finally show ?thesis using d r by simp
qed

lemma matchSep_SomeD:
  "matchSep s = Some rest \<Longrightarrow>
     \<exists>ws d ws'. s = ws @ d # ws' @ rest \<and> list_all isSpace ws \<and> isDelim d \<and> list_all isSpace ws'"
proof -
  assume m: "matchSep s = Some rest"
  then obtain d where d: "isDelim d" and a: "matchAlt d s = Some rest"
    by (auto simp: matchSep_def isDelim_def split: option.splits)
  have "list_all isSpace (takeWhile isSpace s)"
       "list_all isSpace (takeWhile isSpace (tl (dropWhile isSpace s)))"
    by (auto simp: list_all_iff dest: set_takeWhileD)
  then show ?thesis using matchAlt_SomeD[OF a] d by blast
qed

lemma matchSep_NoneD: "matchSep (c # cs) = None \<Longrightarrow> \<not> isDelim c"
  by (auto simp: matchSep_def matchAlt_def isDelim_def isSpace_def split: option.splits if_splits)

lemma splitSep_segments: "map trim (splitSep piece s) = map trim (segments piece s)"
proof (induction piece s rule: splitSep.induct)
  case (1 piece)
  then show ?case by simp
next
  case (2 piece c cs)
  show ?case
  proof (cases "matchSep (c # cs)")
    case None
    then show ?thesis using "2.IH"(1) matchSep_NoneD by simp
  next
    case (Some rest)
    then obtain ws d ws' where s: "c # cs = ws @ d # ws' @ rest"
      and ws: "list_all isSpace ws" and d: "isDelim d" and ws': "list_all isSpace ws'"
      using matchSep_SomeD by blast
    have nd: "list_all (\<lambda>c. \<not> isDelim c) ws" "list_all (\<lambda>c. \<not> isDelim c) ws'"
      using ws ws' space_not_delim by (auto simp: list_all_iff)
    have "segments piece (c # cs) = (rev piece @ ws) # segments (rev ws') rest"
      using segments_append_nodelim[OF nd(1), of piece "d # ws' @ rest"]
            segments_append_nodelim[OF nd(2), of "[]" rest] d s by simp
    moreover have "map trim (segments (rev ws') rest) = map trim (segments [] rest)"
      using segments_leading_spaces[OF ws', of "[]" rest] by simp
    ultimately have "map trim (segments piece (c # cs)) = trim (rev piece) # map trim (segments [] rest)"
      using ws by (simp add: trim_spaces_right)
    then show ?thesis using Some "2.IH"(2) by simp
  qed
qed

lemma upperChar_cases:
  "upperChar c = c \<or> (c, upperChar c) \<in> set caseTable"
  by (auto simp: upperChar_def split: option.splits dest: map_of_SomeD)

lemma caseTable_letters:
  "(a, u) \<in> set caseTable \<Longrightarrow>
     a \<in> set ''abcdefghijklmnopqrstuvwxyz'' \<and> u \<in> set ''ABCDEFGHIJKLMNOPQRSTUVWXYZ''"
  unfolding caseTable_def by (meson set_zip_leftD set_zip_rightD)

lemma lower_plain: "a \<in> set ''abcdefghijklmnopqrstuvwxyz'' \<Longrightarrow> \<not> isSpace a \<and> \<not> isDelim a"
  by (auto simp: isSpace_def isDelim_def)

lemma upper_plain: "a \<in> set ''ABCDEFGHIJKLMNOPQRSTUVWXYZ'' \<Longrightarrow> \<not> isSpace a \<and> \<not> isDelim a"
  by (auto simp: isSpace_def isDelim_def)

lemma isSpace_upperChar: "isSpace (upperChar c) = isSpace c"
  using upperChar_cases[of c] caseTable_letters[of c "upperChar c"] lower_plain upper_plain
  by metis

lemma isDelim_upperChar: "isDelim (upperChar c) = isDelim c"
  using upperChar_cases[of c] caseTable_letters[of c "upperChar c"] lower_plain upper_plain
  by metis

lemma caseTable_fst: "(a, u) \<in> set caseTable \<Longrightarrow> upperChar a = u"
proof -
  assume h: "(a, u) \<in> set caseTable"
  have "distinct (map fst caseTable)" by (simp add: caseTable_def)
  with h have "map_of caseTable a = Some u" by simp
  then show ?thesis by (simp add: upperChar_def)
qed

lemma lower_code: "a \<in> set ''abcdefghijklmnopqrstuvwxyz'' \<Longrightarrow> 97 \<le> (of_char a :: nat)"
  by auto

lemma upper_code: "u \<in> set ''ABCDEFGHIJKLMNOPQRSTUVWXYZ'' \<Longrightarrow> (of_char u :: nat) \<le> 90"
  by auto

lemma upper_not_lower:
  "u \<in> set ''ABCDEFGHIJKLMNOPQRSTUVWXYZ'' \<Longrightarrow> u \<notin> set ''abcdefghijklmnopqrstuvwxyz''"
  using lower_code[of u] upper_code[of u] by linarith

lemma caseTable_snd: "(a, u) \<in> set caseTable \<Longrightarrow> upperChar u = u"
proof -
  assume h: "(a, u) \<in> set caseTable"
  then have "u \<in> set ''ABCDEFGHIJKLMNOPQRSTUVWXYZ''"
    using caseTable_letters by blast
  then have "u \<notin> set (map fst caseTable)"
    using upper_not_lower by (simp add: caseTable_def)
  then have "map_of caseTable u = None"
    by (simp add: map_of_eq_None_iff)
  then show ?thesis by (simp add: upperChar_def)
qed

lemma caseTable_inj: "(a, u) \<in> set caseTable \<Longrightarrow> (b, u) \<in> set caseTable \<Longrightarrow> a = b"
proof -
  assume h: "(a, u) \<in> set caseTable" "(b, u) \<in> set caseTable"
  let ?sw = "map (\<lambda>(x, y). (y, x)) caseTable"
  have d: "distinct (map fst ?sw)" by (simp add: caseTable_def)
  from h have "(u, a) \<in> set ?sw" "(u, b) \<in> set ?sw" by force+
  with d show ?thesis by (rule eq_key_imp_eq_value)
qed

lemma upperChar_eq_iff: "upperChar a = upperChar b \<longleftrightarrow> sameLetter a b"
proof
  assume e: "upperChar a = upperChar b"
  show "sameLetter a b"
    using upperChar_cases[of a] upperChar_cases[of b] e caseTable_inj[of a "upperChar a" b]
    unfolding sameLetter_def by auto
next
  assume "sameLetter a b"
  then show "upperChar a = upperChar b"
    unfolding sameLetter_def
    using caseTable_fst caseTable_snd by auto
qed

lemma toUpperCase_eq_iff: "toUpperCase a = toUpperCase b \<longleftrightarrow> equalIgnoringCase a b"
proof -
  have "toUpperCase a = toUpperCase b \<longleftrightarrow> list_all2 (=) (map upperChar a) (map upperChar b)"
    by (simp add: toUpperCase_def list.rel_eq)
  also have "\<dots> \<longleftrightarrow> list_all2 (\<lambda>x y. upperChar x = upperChar y) a b"
    by (simp add: list_all2_map1 list_all2_map2)
  finally show ?thesis by (simp add: equalIgnoringCase_def upperChar_eq_iff)
qed

lemma trim_toUpperCase: "trim (toUpperCase s) = toUpperCase (trim s)"
proof -
  have c: "isSpace \<circ> upperChar = isSpace" by (auto simp: isSpace_upperChar)
  show ?thesis
    by (simp add: trim_def toUpperCase_def dropWhile_map rev_map c)
qed

lemma segments_toUpperCase:
  "segments (map upperChar piece) (map upperChar s) = map (map upperChar) (segments piece s)"
proof (induction s arbitrary: piece)
  case Nil
  then show ?case by (simp add: rev_map)
next
  case (Cons c cs)
  show ?case
  proof (cases "isDelim c")
    case True
    then show ?thesis using Cons.IH[of "[]"] by (simp add: isDelim_upperChar rev_map)
  next
    case False
    then show ?thesis using Cons.IH[of "c # piece"] by (simp add: isDelim_upperChar)
  qed
qed

lemma requiredTokens_toUpperCase:
  "requiredTokens (toUpperCase r) = map toUpperCase (requiredTokens r)"
proof -
  have "segments [] (toUpperCase r) = map toUpperCase (segments [] r)"
    using segments_toUpperCase[of "[]" r] by (simp add: toUpperCase_def[abs_def])
  then have "map trim (segments [] (toUpperCase r)) = map toUpperCase (map trim (segments [] r))"
    by (simp add: trim_toUpperCase)
  then show ?thesis
    by (simp add: requiredTokens_def filter_map comp_def toUpperCase_def)
qed

lemma reqParts_requiredTokens: "reqParts r = map toUpperCase (requiredTokens r)"
  using splitSep_segments[of "[]" "toUpperCase r"] requiredTokens_toUpperCase[of r]
  by (simp add: reqParts_def requiredTokens_def)

section \<open>Matching: theorems\<close>

lemma trim_all_spaces: "list_all isSpace s \<Longrightarrow> trim s = []"
proof -
  assume "list_all isSpace s"
  then have d: "dropWhile isSpace s = []" by (rule dropWhile_all)
  show ?thesis unfolding trim_def d by simp
qed

lemma set_trim: "set (trim s) \<subseteq> set s"
proof -
  have "set (trim s) \<subseteq> set (dropWhile isSpace s)"
    unfolding trim_def using set_dropWhileD by fastforce
  then show ?thesis using set_dropWhileD by fastforce
qed

lemma trim_eq_Nil: "trim s = [] \<Longrightarrow> list_all isSpace s"
proof -
  assume t: "trim s = []"
  then have "dropWhile isSpace (rev (dropWhile isSpace s)) = []"
    by (simp add: trim_def)
  then have a: "\<forall>c \<in> set (dropWhile isSpace s). isSpace c"
    by (simp add: dropWhile_eq_Nil_conv)
  have "dropWhile isSpace s = []"
  proof (cases "dropWhile isSpace s")
    case Nil
    then show ?thesis .
  next
    case (Cons c cs)
    then have "\<not> isSpace c" using hd_dropWhile[of isSpace s] by auto
    then show ?thesis using a Cons by auto
  qed
  then show ?thesis by (simp add: dropWhile_eq_Nil_conv list_all_iff)
qed

lemma segments_blank:
  "list_all (\<lambda>c. isDelim c \<or> isSpace c) s \<Longrightarrow> list_all isSpace piece \<Longrightarrow>
     list_all (list_all isSpace) (segments piece s)"
proof (induction s arbitrary: piece)
  case Nil
  then show ?case by (simp add: list_all_iff)
next
  case (Cons c cs)
  show ?case
  proof (cases "isDelim c")
    case True
    then show ?thesis using Cons.IH[of "[]"] Cons.prems by (simp add: list_all_iff)
  next
    case False
    then show ?thesis using Cons.IH[of "c # piece"] Cons.prems by simp
  qed
qed

lemma requiredTokens_blank:
  "list_all (\<lambda>c. isDelim c \<or> isSpace c) s \<Longrightarrow> requiredTokens s = []"
proof -
  assume a: "list_all (\<lambda>c. isDelim c \<or> isSpace c) s"
  have "list_all (list_all isSpace) (segments [] s)"
    using segments_blank[OF a, of "[]"] by simp
  then have "\<forall>p \<in> set (segments [] s). trim p = []"
    using trim_all_spaces by (auto simp: list_all_iff)
  then show ?thesis
    by (simp add: requiredTokens_def filter_empty_conv)
qed

text \<open>
  Claim C9. A rule value made of delimiters and white space only, with at least one
  delimiter, has no required token. It is not one of the wild cards, so
  \<open>matchAirspace\<close> rejects an empty input value, and it accepts every other input
  value, since there is no token to look for.
\<close>

theorem matchAirspace_delimiters_only:
  assumes "list_all (\<lambda>c. isDelim c \<or> isSpace c) s" and "list_ex isDelim s"
  shows "reqParts (norm_str (Some s)) = []
         \<and> matchAirspace (Some s) inputVal = (norm_str inputVal \<noteq> [])"
proof -
  have sub: "list_all (\<lambda>c. isDelim c \<or> isSpace c) (trim s)"
    using assms(1) set_trim[of s] by (auto simp: list_all_iff)
  have ne: "trim s \<noteq> []"
  proof
    assume "trim s = []"
    then have "list_all isSpace s" by (rule trim_eq_Nil)
    then show False using assms(2) space_not_delim by (auto simp: list_all_iff list_ex_iff)
  qed
  have star: "trim s \<noteq> ''*''"
  proof
    assume "trim s = ''*''"
    then have "isDelim CHR ''*'' \<or> isSpace CHR ''*''" using sub by simp
    then show False by (simp add: isDelim_def isSpace_def)
  qed
  have parts: "reqParts (trim s) = []"
    using requiredTokens_blank[OF sub] by (simp add: reqParts_requiredTokens)
  show ?thesis
    using ne star parts by (simp add: matchAirspace_def norm_str_def Let_def)
qed

theorem matchAirspace_delimiters_only_witness:
  "matchAirspace (Some '' , '') (Some ''N+S'') \<and> \<not> matchAirspace (Some ''+'') (Some ''  '')
   \<and> reqParts (norm_str (Some '' , '')) = []"
proof -
  have a: "list_all (\<lambda>c. isDelim c \<or> isSpace c) '' , ''" "list_ex isDelim '' , ''"
    by (simp_all add: isDelim_def isSpace_def)
  have b: "list_all (\<lambda>c. isDelim c \<or> isSpace c) ''+''" "list_ex isDelim ''+''"
    by (simp_all add: isDelim_def isSpace_def)
  have n: "norm_str (Some ''N+S'') \<noteq> []" "norm_str (Some ''  '') = []"
    by (simp_all add: norm_str_def trim_def isSpace_def)
  show ?thesis
    using matchAirspace_delimiters_only[OF a, of "Some ''N+S''"]
          matchAirspace_delimiters_only[OF b, of "Some ''  ''"] n
    by simp
qed

text \<open>
  Claim C3. \<open>matchField\<close> is true when the trimmed rule value is \<open>*\<close> or empty,
  whatever the input value; otherwise it is false when the trimmed input value is empty;
  otherwise it is true exactly when the two trimmed values are equal ignoring case. In
  particular \<open>matchField("*", x)\<close> and \<open>matchField("", x)\<close> hold for every \<open>x\<close>.
\<close>

theorem matchField_spec:
  "matchField ruleVal inputVal =
     (if norm_str ruleVal = ''*'' \<or> norm_str ruleVal = [] then True
      else if norm_str inputVal = [] then False
      else equalIgnoringCase (norm_str ruleVal) (norm_str inputVal))
   \<and> matchField (Some ''*'') inputVal
   \<and> matchField (Some []) inputVal"
proof -
  have n: "norm_str (Some ''*'') = ''*''" "norm_str (Some []) = []"
    by (simp_all add: norm_str_def trim_def isSpace_def)
  have w: "matchField (Some ''*'') inputVal" "matchField (Some []) inputVal"
    using n by (simp_all add: matchField_def)
  have "matchField ruleVal inputVal =
     (if norm_str ruleVal = ''*'' \<or> norm_str ruleVal = [] then True
      else if norm_str inputVal = [] then False
      else equalIgnoringCase (norm_str ruleVal) (norm_str inputVal))"
    by (simp add: matchField_def Let_def toUpperCase_eq_iff)
  then show ?thesis using w by blast
qed

theorem matchField_spec_witness:
  "matchField (Some '' 4l'') (Some ''4L '') \<and> \<not> matchField (Some ''4'') (Some '' '')
   \<and> \<not> matchField (Some ''4'') (Some ''22'') \<and> matchField (Some '' * '') None"
proof -
  have n: "norm_str (Some '' 4l'') = ''4l''" "norm_str (Some ''4L '') = ''4L''" "norm_str (Some ''4'') = ''4''"
    "norm_str (Some '' '') = []" "norm_str (Some ''22'') = ''22''" "norm_str (Some '' * '') = ''*''"
    by (simp_all add: norm_str_def trim_def isSpace_def)
  have e: "equalIgnoringCase ''4l'' ''4L''" "\<not> equalIgnoringCase ''4'' ''22''"
    by (simp_all add: equalIgnoringCase_def sameLetter_def caseTable_def)
  show ?thesis
    using matchField_spec[of "Some '' 4l''" "Some ''4L ''"]
          matchField_spec[of "Some ''4''" "Some '' ''"]
          matchField_spec[of "Some ''4''" "Some ''22''"]
          matchField_spec[of "Some '' * ''" None] n e
    by simp
qed



section \<open>Departure rules: theorems\<close>

subsection \<open>The order of numbers and the sort\<close>

lemma js_le_refl: "a \<noteq> NaN \<Longrightarrow> js_le a a"
  by (cases a) auto

lemma js_le_trans: "js_le a b \<Longrightarrow> js_le b c \<Longrightarrow> js_le a c"
  by (cases a; cases b; cases c) auto

lemma js_lt_imp_le: "js_lt a b \<Longrightarrow> js_le a b"
  by (cases a; cases b) auto

lemma js_not_lt: "a \<noteq> NaN \<Longrightarrow> b \<noteq> NaN \<Longrightarrow> \<not> js_lt b a \<Longrightarrow> js_le a b"
  by (cases a; cases b) auto

lemma js_le_not_NaN: "js_le a b \<Longrightarrow> a \<noteq> NaN \<and> b \<noteq> NaN"
  by (cases a; cases b) auto

lemma cmpPositive_sub_iff:
  "a \<noteq> NaN \<Longrightarrow> b \<noteq> NaN \<Longrightarrow> cmpPositive (js_sub a b) \<longleftrightarrow> js_lt b a"
  by (cases a; cases b) (auto simp: cmpPositive_def)

lemma cmpPositive_sub_lt: "js_lt b a \<Longrightarrow> cmpPositive (js_sub a b)"
  by (cases a; cases b) (auto simp: cmpPositive_def)

lemma cmpPositive_sub_le: "js_le a b \<Longrightarrow> \<not> cmpPositive (js_sub a b)"
  by (cases a; cases b) (auto simp: cmpPositive_def)

lemma insertSorted_not_Nil: "insertSorted cmp x ys \<noteq> []"
  by (cases ys) auto

lemma set_insertSorted: "set (insertSorted cmp x ys) = insert x (set ys)"
  by (induction ys) auto

lemma set_Array_sort: "set (Array_sort cmp xs) = set xs"
  by (induction xs) (auto simp: Array_sort_def set_insertSorted)

lemma Array_sort_Cons: "Array_sort cmp (x # xs) = insertSorted cmp x (Array_sort cmp xs)"
  by (simp add: Array_sort_def)

lemma Array_sort_Nil: "Array_sort cmp [] = []"
  by (simp add: Array_sort_def)

text \<open>The first element of the sorted list, for keys that are numbers.\<close>

lemma Array_sort_first:
  fixes key :: "'a \<Rightarrow> jsnum"
  assumes "\<forall>x \<in> set front. js_lt (key m) (key x)"
    and "\<forall>x \<in> set behind. js_le (key m) (key x)"
  shows "\<exists>tl0. Array_sort (\<lambda>a b. js_sub (key a) (key b)) (front @ m # behind) = m # tl0"
  using assms(1)
proof (induction front)
  case Nil
  let ?cmp = "\<lambda>a b. js_sub (key a) (key b)"
  show ?case
  proof (cases "Array_sort ?cmp behind")
    case Nil
    then show ?thesis by (simp add: Array_sort_Cons)
  next
    case (Cons b rest)
    then have "b \<in> set behind" using set_Array_sort[of "?cmp" behind] by auto
    then have "\<not> cmpPositive (js_sub (key m) (key b))"
      using assms(2) cmpPositive_sub_le by blast
    then show ?thesis using Cons by (simp add: Array_sort_Cons)
  qed
next
  case (Cons a front)
  let ?cmp = "\<lambda>a b. js_sub (key a) (key b)"
  from Cons obtain tl0 where o: "Array_sort ?cmp (front @ m # behind) = m # tl0"
    by auto
  have "cmpPositive (js_sub (key a) (key m))"
    using Cons.prems cmpPositive_sub_lt by simp
  then show ?case using o by (simp add: Array_sort_Cons)
qed

lemma first_least_exists:
  fixes key :: "'a \<Rightarrow> jsnum"
  assumes "xs \<noteq> []" and "\<forall>x \<in> set xs. key x \<noteq> NaN"
  shows "\<exists>front m behind. xs = front @ m # behind
            \<and> (\<forall>x \<in> set front. js_lt (key m) (key x))
            \<and> (\<forall>x \<in> set behind. js_le (key m) (key x))"
  using assms
proof (induction xs)
  case Nil
  then show ?case by simp
next
  case (Cons a xs)
  show ?case
  proof (cases "xs = []")
    case True
    then have "a # xs = [] @ a # []" by simp
    then show ?thesis by (metis empty_iff list.set(1))
  next
    case False
    then obtain front m behind where d: "xs = front @ m # behind"
      and f: "\<forall>x \<in> set front. js_lt (key m) (key x)"
      and b: "\<forall>x \<in> set behind. js_le (key m) (key x)"
      using Cons by auto
    have nn: "key a \<noteq> NaN" "key m \<noteq> NaN" using Cons.prems d by auto
    show ?thesis
    proof (cases "js_lt (key m) (key a)")
      case True
      have "a # xs = (a # front) @ m # behind" using d by simp
      moreover have "\<forall>x \<in> set (a # front). js_lt (key m) (key x)" using True f by simp
      ultimately show ?thesis using b by blast
    next
      case False
      then have am: "js_le (key a) (key m)" using nn js_not_lt by blast
      have "\<forall>x \<in> set xs. js_le (key a) (key x)"
      proof
        fix x assume "x \<in> set xs"
        then consider "x \<in> set front" | "x = m" | "x \<in> set behind" using d by auto
        then show "js_le (key a) (key x)"
          using am f b js_le_trans js_lt_imp_le by cases blast+
      qed
      moreover have "a # xs = [] @ a # xs" by simp
      ultimately show ?thesis by (metis empty_iff list.set(1))
    qed
  qed
qed

lemma filter_eq_split:
  "filter P xs = front @ m # behind \<Longrightarrow>
     \<exists>pre post. xs = pre @ m # post \<and> filter P pre = front \<and> filter P post = behind \<and> P m"
proof (induction xs arbitrary: front)
  case Nil
  then show ?case by simp
next
  case (Cons a xs)
  show ?case
  proof (cases "P a")
    case False
    then obtain pre post where "xs = pre @ m # post" "filter P pre = front" "filter P post = behind" "P m"
      using Cons by auto
    then have "a # xs = (a # pre) @ m # post \<and> filter P (a # pre) = front \<and> filter P post = behind \<and> P m"
      using False by simp
    then show ?thesis by blast
  next
    case True
    show ?thesis
    proof (cases front)
      case Nil
      then have "a = m" "filter P xs = behind" using Cons.prems True by auto
      then have "a # xs = [] @ m # xs \<and> filter P [] = front \<and> filter P xs = behind \<and> P m"
        using Nil True by simp
      then show ?thesis by blast
    next
      case (Cons f front')
      then have "f = a" "filter P xs = front' @ m # behind" using Cons.prems True by auto
      then obtain pre post where "xs = pre @ m # post" "filter P pre = front'" "filter P post = behind" "P m"
        using Cons.IH by blast
      then have "a # xs = (a # pre) @ m # post \<and> filter P (a # pre) = front \<and> filter P post = behind \<and> P m"
        using True Cons \<open>f = a\<close> by simp
      then show ?thesis by blast
    qed
  qed
qed


lemma pick_of_split:
  assumes "satisfies m inp"
    and "\<forall>x \<in> set pre. satisfies x inp \<longrightarrow> js_lt (priorityOf h m) (priorityOf h x)"
    and "\<forall>x \<in> set post. satisfies x inp \<longrightarrow> js_le (priorityOf h m) (priorityOf h x)"
  shows "pickDepartureRule h (pre @ m # post) inp = Some m"
proof -
  let ?P = "\<lambda>r. satisfies r inp"
  have f: "filter ?P (pre @ m # post) = filter ?P pre @ m # filter ?P post"
    using assms(1) by simp
  have "\<exists>tl0. Array_sort (\<lambda>a b. js_sub (priorityOf h a) (priorityOf h b))
            (filter ?P pre @ m # filter ?P post) = m # tl0"
    using assms(2,3) by (intro Array_sort_first) auto
  then obtain tl0 where "Array_sort (byPriority h) (filter ?P (pre @ m # post)) = m # tl0"
    unfolding f byPriority_def[abs_def] by blast
  then show ?thesis
    unfolding pickDepartureRule_def Let_def using f by simp
qed

lemma pick_None_iff: "pickDepartureRule h tbl inp = None \<longleftrightarrow> (\<forall>r \<in> set tbl. \<not> satisfies r inp)"
proof -
  let ?ms = "filter (\<lambda>r. satisfies r inp) tbl"
  have "Array_sort (byPriority h) ?ms \<noteq> []" if "?ms \<noteq> []"
    using that set_Array_sort[of "byPriority h" ?ms] by (metis set_empty)
  then show ?thesis
    by (auto simp: pickDepartureRule_def Let_def filter_empty_conv split: list.splits)
qed

lemma pick_split:
  assumes "\<forall>r \<in> set tbl. satisfies r inp \<longrightarrow> priorityOf h r \<noteq> NaN"
    and "pickDepartureRule h tbl inp = Some m"
  shows "\<exists>pre post. tbl = pre @ m # post \<and> satisfies m inp
           \<and> (\<forall>x \<in> set pre. satisfies x inp \<longrightarrow> js_lt (priorityOf h m) (priorityOf h x))
           \<and> (\<forall>x \<in> set post. satisfies x inp \<longrightarrow> js_le (priorityOf h m) (priorityOf h x))"
proof -
  let ?P = "\<lambda>r. satisfies r inp"
  let ?ms = "filter ?P tbl"
  have ne: "?ms \<noteq> []" using assms(2) by (auto simp: pickDepartureRule_def Let_def)
  have nn: "\<forall>x \<in> set ?ms. priorityOf h x \<noteq> NaN" using assms(1) by simp
  obtain front m0 behind where d: "?ms = front @ m0 # behind"
    and f: "\<forall>x \<in> set front. js_lt (priorityOf h m0) (priorityOf h x)"
    and b: "\<forall>x \<in> set behind. js_le (priorityOf h m0) (priorityOf h x)"
    using first_least_exists[OF ne nn] by blast
  obtain pre post where t: "tbl = pre @ m0 # post" and fp: "filter ?P pre = front"
    and fb: "filter ?P post = behind" and pm: "?P m0"
    using filter_eq_split[OF d] by blast
  have pre: "\<forall>x \<in> set pre. satisfies x inp \<longrightarrow> js_lt (priorityOf h m0) (priorityOf h x)"
    using f fp by auto
  have post: "\<forall>x \<in> set post. satisfies x inp \<longrightarrow> js_le (priorityOf h m0) (priorityOf h x)"
    using b fb by auto
  have "pickDepartureRule h tbl inp = Some m0"
    unfolding t using pick_of_split[OF pm pre post] .
  then have "m = m0" using assms(2) by simp
  then show ?thesis using t pm pre post by blast
qed

subsection \<open>The rule that is picked\<close>

text \<open>
  Claim C1, as amended. Let the \<open>PRIORITY\<close> of every row that satisfies the seven
  predicates convert to a number (not \<open>NaN\<close>). Then \<open>pickDepartureRule\<close> returns
  \<open>null\<close> exactly when no row of the table satisfies the predicates, and it returns the
  row \<open>m\<close> exactly when \<open>m\<close> stands in the table, satisfies the predicates, every
  satisfying row before it has a greater priority number and every satisfying row after
  it has a priority number that is greater or equal: the lowest priority number wins, and
  among equal ones the earliest row of the table. The result is a function of the table
  and the input, so a second call returns the same rule.
\<close>

theorem pickDepartureRule_lowest_priority:
  assumes "\<forall>r \<in> set depRulesRows. satisfies r inputs \<longrightarrow> priorityOf h r \<noteq> NaN"
  shows "(pickDepartureRule h depRulesRows inputs = None
            \<longleftrightarrow> (\<forall>r \<in> set depRulesRows. \<not> satisfies r inputs))
       \<and> (\<forall>m. pickDepartureRule h depRulesRows inputs = Some m \<longleftrightarrow>
            (\<exists>pre post. depRulesRows = pre @ m # post \<and> satisfies m inputs
               \<and> (\<forall>x \<in> set pre. satisfies x inputs \<longrightarrow> js_lt (priorityOf h m) (priorityOf h x))
               \<and> (\<forall>x \<in> set post. satisfies x inputs \<longrightarrow> js_le (priorityOf h m) (priorityOf h x))))"
proof (intro conjI allI iffI)
  show "pickDepartureRule h depRulesRows inputs = None
          \<Longrightarrow> \<forall>r \<in> set depRulesRows. \<not> satisfies r inputs"
    by (simp add: pick_None_iff)
  show "\<forall>r \<in> set depRulesRows. \<not> satisfies r inputs
          \<Longrightarrow> pickDepartureRule h depRulesRows inputs = None"
    by (simp add: pick_None_iff)
next
  fix m
  assume "pickDepartureRule h depRulesRows inputs = Some m"
  then show "\<exists>pre post. depRulesRows = pre @ m # post \<and> satisfies m inputs
               \<and> (\<forall>x \<in> set pre. satisfies x inputs \<longrightarrow> js_lt (priorityOf h m) (priorityOf h x))
               \<and> (\<forall>x \<in> set post. satisfies x inputs \<longrightarrow> js_le (priorityOf h m) (priorityOf h x))"
    using pick_split[OF assms] by blast
next
  fix m
  assume "\<exists>pre post. depRulesRows = pre @ m # post \<and> satisfies m inputs
               \<and> (\<forall>x \<in> set pre. satisfies x inputs \<longrightarrow> js_lt (priorityOf h m) (priorityOf h x))
               \<and> (\<forall>x \<in> set post. satisfies x inputs \<longrightarrow> js_le (priorityOf h m) (priorityOf h x))"
  then show "pickDepartureRule h depRulesRows inputs = Some m"
    using pick_of_split by blast
qed

theorem pickDepartureRule_lowest_priority_witness:
  "pickDepartureRule jsHost
     [anyRule ''LGA7.CONEY'' ''2'', anyRule ''GLDMN5'' ''1'', anyRule ''LGA7.MASPETH'' ''1'']
     (scenarioInputs None) = Some (anyRule ''GLDMN5'' ''1'')
   \<and> pickDepartureRule jsHost [scenarioRule None] (scenarioInputs None\<lparr>in_DEP_RWY := Some ''31''\<rparr>) = None"
proof -
  let ?tbl = "[anyRule ''LGA7.CONEY'' ''2'', anyRule ''GLDMN5'' ''1'', anyRule ''LGA7.MASPETH'' ''1'']"
  let ?inp = "scenarioInputs None"
  have nn: "\<forall>r \<in> set ?tbl. satisfies r ?inp \<longrightarrow> priorityOf jsHost r \<noteq> NaN"
    by code_simp
  have sat: "satisfies (anyRule ''GLDMN5'' ''1'') ?inp" by code_simp
  have pre: "\<forall>x \<in> set [anyRule ''LGA7.CONEY'' ''2''].
      satisfies x ?inp \<longrightarrow> js_lt (priorityOf jsHost (anyRule ''GLDMN5'' ''1'')) (priorityOf jsHost x)"
    by code_simp
  have post: "\<forall>x \<in> set [anyRule ''LGA7.MASPETH'' ''1''].
      satisfies x ?inp \<longrightarrow> js_le (priorityOf jsHost (anyRule ''GLDMN5'' ''1'')) (priorityOf jsHost x)"
    by code_simp
  have split: "?tbl = [anyRule ''LGA7.CONEY'' ''2''] @ anyRule ''GLDMN5'' ''1'' # [anyRule ''LGA7.MASPETH'' ''1'']"
    by simp
  have a: "pickDepartureRule jsHost ?tbl ?inp = Some (anyRule ''GLDMN5'' ''1'')"
    using pickDepartureRule_lowest_priority[OF nn] sat pre post split by blast
  let ?inp2 = "scenarioInputs None\<lparr>in_DEP_RWY := Some ''31''\<rparr>"
  have nn2: "\<forall>r \<in> set [scenarioRule None]. satisfies r ?inp2 \<longrightarrow> priorityOf jsHost r \<noteq> NaN"
    by code_simp
  have no: "\<forall>r \<in> set [scenarioRule None]. \<not> satisfies r ?inp2" by code_simp
  have b: "pickDepartureRule jsHost [scenarioRule None] ?inp2 = None"
    using pickDepartureRule_lowest_priority[OF nn2] no by blast
  show ?thesis using a b by blast
qed

text \<open>
  Claim C1 as stated fails where a satisfying row has a \<open>PRIORITY\<close> that is not a
  number: the difference of the comparison function is \<open>NaN\<close>, the sort takes the rows
  for equal and keeps the table's order. Here the row with priority \<open>TBD\<close> is returned
  although a satisfying row with the priority number 1 follows it.
\<close>

theorem pickDepartureRule_nonnumeric_priority:
  "pickDepartureRule jsHost [anyRule ''LGA7'' ''TBD'', anyRule ''GLDMN5'' ''1''] (scenarioInputs None)
     = Some (anyRule ''LGA7'' ''TBD'')
   \<and> satisfies (anyRule ''GLDMN5'' ''1'') (scenarioInputs None)
   \<and> priorityOf jsHost (anyRule ''GLDMN5'' ''1'') = Fin 1
   \<and> priorityOf jsHost (anyRule ''LGA7'' ''TBD'') = NaN
   \<and> \<not> js_le (priorityOf jsHost (anyRule ''LGA7'' ''TBD'')) (priorityOf jsHost (anyRule ''GLDMN5'' ''1''))"
  by code_simp

lemma satisfies_scenario: "satisfies (scenarioRule notes) (scenarioInputs acftType)"
proof -
  have w: "matchField (Some ''*'') x" "matchAirspace (Some ''*'') x" for x
    by (simp_all add: matchField_def matchAirspace_def norm_str_def trim_def isSpace_def)
  have "matchField (Some ''4'') (Some ''4'')" "matchField (Some ''N'') (Some ''N'')"
    "matchAirspace (Some ''N'') (Some ''N+S'')"
    by code_simp+
  then show ?thesis using w by (simp add: satisfies_def scenarioRule_def scenarioInputs_def)
qed

lemma climbText_scenario: "climbText (scenarioRule notes) = ''CLIMB VIA SID''"
  unfolding climbText_def scenarioRule_def by code_simp

text \<open>
  Claim C4, as amended. For the scenario's input vector, with any aircraft type, and a
  table that holds the scenario's row, \<open>pickDepartureRule\<close> selects that row and the
  climb instruction shown is \<open>CLIMB VIA SID\<close>, provided every other satisfying row has a
  priority number greater than 1 when it comes before the row, and greater than or equal
  to 1 when it comes after it. (\<open>LGA_AIRSPACE_REQ = "N"\<close> matches the input \<open>"N+S"\<close>
  as a substring.) The host reads the priority \<open>"1"\<close> as the number 1.
\<close>

theorem scenario_selected:
  assumes "Number h ''1'' = Fin 1"
    and "\<forall>x \<in> set pre. satisfies x (scenarioInputs acftType) \<longrightarrow> js_lt (Fin 1) (priorityOf h x)"
    and "\<forall>x \<in> set post. satisfies x (scenarioInputs acftType) \<longrightarrow> js_le (Fin 1) (priorityOf h x)"
  shows "pickDepartureRule h (pre @ scenarioRule notes # post) (scenarioInputs acftType)
           = Some (scenarioRule notes)
       \<and> runTool_climbText h (pre @ scenarioRule notes # post) (scenarioInputs acftType)
           = Some ''CLIMB VIA SID''"
proof -
  have p: "priorityOf h (scenarioRule notes) = Fin 1"
    using assms(1) by (simp add: priorityOf_def NumberOf_def scenarioRule_def)
  have "pickDepartureRule h (pre @ scenarioRule notes # post) (scenarioInputs acftType)
           = Some (scenarioRule notes)"
  proof (rule pick_of_split)
    show "satisfies (scenarioRule notes) (scenarioInputs acftType)"
      by (rule satisfies_scenario)
    show "\<forall>x \<in> set pre. satisfies x (scenarioInputs acftType)
            \<longrightarrow> js_lt (priorityOf h (scenarioRule notes)) (priorityOf h x)"
      using assms(2) p by simp
    show "\<forall>x \<in> set post. satisfies x (scenarioInputs acftType)
            \<longrightarrow> js_le (priorityOf h (scenarioRule notes)) (priorityOf h x)"
      using assms(3) p by simp
  qed
  then show ?thesis by (simp add: runTool_climbText_def climbText_scenario)
qed

theorem scenario_selected_witness:
  "pickDepartureRule jsHost
     ([anyRule ''LGA7.CONEY'' ''2''] @ scenarioRule None # [anyRule ''GLDMN5'' ''1''])
     (scenarioInputs (Some ''JET'')) = Some (scenarioRule None)
   \<and> runTool_climbText jsHost
     ([anyRule ''LGA7.CONEY'' ''2''] @ scenarioRule None # [anyRule ''GLDMN5'' ''1''])
     (scenarioInputs (Some ''JET'')) = Some ''CLIMB VIA SID''"
proof -
  have n: "Number jsHost ''1'' = Fin 1" by code_simp
  have pre: "\<forall>x \<in> set [anyRule ''LGA7.CONEY'' ''2''].
      satisfies x (scenarioInputs (Some ''JET'')) \<longrightarrow> js_lt (Fin 1) (priorityOf jsHost x)"
    by code_simp
  have post: "\<forall>x \<in> set [anyRule ''GLDMN5'' ''1''].
      satisfies x (scenarioInputs (Some ''JET'')) \<longrightarrow> js_le (Fin 1) (priorityOf jsHost x)"
    by code_simp
  show ?thesis using scenario_selected[OF n pre post] .
qed

text \<open>
  Claim C4 as stated asks only that no satisfying row has a lower priority. A satisfying
  row with the same priority that comes earlier in the table is selected instead, and
  here it has another climb instruction.
\<close>

theorem scenario_tie_earlier_row:
  "pickDepartureRule jsHost [anyRule ''LGA7.WHITESTONE'' ''1'', scenarioRule None] (scenarioInputs None)
     = Some (anyRule ''LGA7.WHITESTONE'' ''1'')
   \<and> anyRule ''LGA7.WHITESTONE'' ''1'' \<noteq> scenarioRule None
   \<and> \<not> js_lt (priorityOf jsHost (anyRule ''LGA7.WHITESTONE'' ''1'')) (priorityOf jsHost (scenarioRule None))
   \<and> runTool_climbText jsHost [anyRule ''LGA7.WHITESTONE'' ''1'', scenarioRule None] (scenarioInputs None)
     = Some ''CLIMB AND MAINTAIN 5,000''"
proof -
  have "anyRule ''LGA7.WHITESTONE'' ''1'' \<noteq> scenarioRule None"
    by (simp add: anyRule_def scenarioRule_def)
  moreover have "pickDepartureRule jsHost [anyRule ''LGA7.WHITESTONE'' ''1'', scenarioRule None] (scenarioInputs None)
     = Some (anyRule ''LGA7.WHITESTONE'' ''1'')" by code_simp
  moreover have "\<not> js_lt (priorityOf jsHost (anyRule ''LGA7.WHITESTONE'' ''1'')) (priorityOf jsHost (scenarioRule None))"
    by code_simp
  moreover have "runTool_climbText jsHost [anyRule ''LGA7.WHITESTONE'' ''1'', scenarioRule None] (scenarioInputs None)
     = Some ''CLIMB AND MAINTAIN 5,000''" by code_simp
  ultimately show ?thesis by blast
qed

section \<open>The report line of a station: theorems\<close>

lemma find_first:
  "P l \<Longrightarrow> \<forall>x \<in> set pre. \<not> P x \<Longrightarrow> find P (pre @ l # post) = Some l"
  by (induction pre) auto

lemma find_none: "\<forall>x \<in> set xs. \<not> P x \<Longrightarrow> find P xs = None"
  by (induction xs) auto

text \<open>
  Claim C8, as amended. When the weather source answers, the line returned is the first
  of the response's trimmed, non-empty lines that, in upper case, starts with the trimmed
  upper-case identifier followed by a space; if no line does, it is the first of those
  lines; and if the response has no such line at all, it is the placeholder made of the
  identifier and \<open>(no METAR)\<close>. None of the three is an error.
\<close>

theorem fetchVatsimMetar_line:
  assumes "ok res"
  shows "(\<forall>pre l post. responseLines (body res) = pre @ l # post
            \<and> startsWithId (toUpperCase (norm_str icao)) l
            \<and> (\<forall>x \<in> set pre. \<not> startsWithId (toUpperCase (norm_str icao)) x)
            \<longrightarrow> fetchVatsimMetar res icao = Inr l)
       \<and> (\<forall>l ls. responseLines (body res) = l # ls
            \<and> (\<forall>x \<in> set (l # ls). \<not> startsWithId (toUpperCase (norm_str icao)) x)
            \<longrightarrow> fetchVatsimMetar res icao = Inr l)
       \<and> (responseLines (body res) = []
            \<longrightarrow> fetchVatsimMetar res icao = Inr (toUpperCase (norm_str icao) @ '' (no METAR)''))"
proof (intro conjI allI impI)
  fix pre l post
  assume a: "responseLines (body res) = pre @ l # post
            \<and> startsWithId (toUpperCase (norm_str icao)) l
            \<and> (\<forall>x \<in> set pre. \<not> startsWithId (toUpperCase (norm_str icao)) x)"
  then have "find (startsWithId (toUpperCase (norm_str icao))) (responseLines (body res)) = Some l"
    using find_first[of "startsWithId (toUpperCase (norm_str icao))" l pre post] by simp
  then show "fetchVatsimMetar res icao = Inr l"
    using assms by (simp add: fetchVatsimMetar_def Let_def)
next
  fix l ls
  assume a: "responseLines (body res) = l # ls
            \<and> (\<forall>x \<in> set (l # ls). \<not> startsWithId (toUpperCase (norm_str icao)) x)"
  then have "find (startsWithId (toUpperCase (norm_str icao))) (responseLines (body res)) = None"
    using find_none[of "l # ls" "startsWithId (toUpperCase (norm_str icao))"] by simp
  then show "fetchVatsimMetar res icao = Inr l"
    using assms a by (simp add: fetchVatsimMetar_def Let_def)
next
  assume "responseLines (body res) = []"
  then show "fetchVatsimMetar res icao = Inr (toUpperCase (norm_str icao) @ '' (no METAR)'')"
    using assms by (simp add: fetchVatsimMetar_def Let_def)
qed

theorem fetchVatsimMetar_line_witness:
  "fetchVatsimMetar \<lparr>ok = True, status = 200,
       body = ''KJFK 121251Z 10SM'' @ [CHR 0x0D, CHR 0x0A] @ ''klga 121251Z 3SM'' @ [CHR 0x0A]\<rparr>
     (Some ''klga '') = Inr ''klga 121251Z 3SM''"
proof -
  let ?res = "\<lparr>ok = True, status = 200,
       body = ''KJFK 121251Z 10SM'' @ [CHR 0x0D, CHR 0x0A] @ ''klga 121251Z 3SM'' @ [CHR 0x0A]\<rparr>"
  have o: "ok ?res" by simp
  have l: "responseLines (body ?res) = [''KJFK 121251Z 10SM''] @ ''klga 121251Z 3SM'' # []"
    by code_simp
  have m: "startsWithId (toUpperCase (norm_str (Some ''klga ''))) ''klga 121251Z 3SM''"
    by code_simp
  have n: "\<forall>x \<in> set [''KJFK 121251Z 10SM'']. \<not> startsWithId (toUpperCase (norm_str (Some ''klga ''))) x"
    by code_simp
  show ?thesis
    using fetchVatsimMetar_line[OF o, of "Some ''klga ''"] l m n by blast
qed

text \<open>
  Claim C8 as stated names the placeholder \<open>(no report)\<close> and selects a line by its
  first token. The placeholder of the code is the identifier followed by
  \<open>(no METAR)\<close>, and a line that is the identifier alone has the identifier as its
  first token but does not start with the identifier and a space, so the first line of
  the response is returned instead.
\<close>

theorem fetchVatsimMetar_placeholder_and_bare_identifier:
  "fetchVatsimMetar \<lparr>ok = True, status = 200, body = []\<rparr> (Some ''KLGA'') = Inr ''KLGA (no METAR)''
   \<and> fetchVatsimMetar \<lparr>ok = True, status = 200, body = ''KJFK 121251Z 10SM'' @ [CHR 0x0A] @ ''KLGA''\<rparr>
       (Some ''KLGA'') = Inr ''KJFK 121251Z 10SM''"
  by code_simp


section \<open>Suggested runway configurations: theorems\<close>
















section \<open>Flight category: theorems\<close>

lemma js_min_Fin: "a = PosInf \<or> isFinite a \<Longrightarrow> js_min a (Fin b) = PosInf \<or> isFinite (js_min a (Fin b))"
  by (cases a) auto

lemma ceil_fold:
  "a = PosInf \<or> isFinite a \<Longrightarrow>
   (let r = foldl (\<lambda>minFt x. case Number h x of Fin hundreds \<Rightarrow> js_min minFt (Fin (hundreds * 100))
                                | _ \<Rightarrow> minFt) a layers
    in r = PosInf \<or> isFinite r)"
proof (induction layers arbitrary: a)
  case Nil
  then show ?case by simp
next
  case (Cons x layers)
  show ?case
  proof (cases "Number h x")
    case (Fin q)
    then show ?thesis using Cons.IH[OF js_min_Fin[OF Cons.prems, of "q * 100"]] by simp
  qed (use Cons in simp_all)
qed

lemma parseCeilFt_range: "parseCeilFt h m = PosInf \<or> isFinite (parseCeilFt h m)"
  using ceil_fold[of PosInf h "ceilLayers False m"]
  by (simp add: parseCeilFt_def Let_def)

lemma parseVisSM_range: "parseVisSM h m = NaN \<or> isFinite (parseVisSM h m)"
  by (auto simp: parseVisSM_def Let_def split: option.splits jsnum.splits prod.splits)

lemma guarded_lt: "x \<noteq> NegInf \<Longrightarrow> (isFinite x \<and> js_lt x (Fin t)) = js_lt x (Fin t)"
  by (cases x) auto

lemma js_lt_Fin_mono: "js_lt x (Fin a) \<Longrightarrow> a \<le> b \<Longrightarrow> js_lt x (Fin b)"
  by (cases x) auto

lemma flightCategory_cat:
  "cat (flightCategory h metar) =
     (if norm_str metar = [] then emDash
      else if js_lt (parseCeilFt h (norm_str metar)) (Fin 500) \<or> js_lt (parseVisSM h (norm_str metar)) (Fin 1)
        then ''LIFR''
      else if js_lt (parseCeilFt h (norm_str metar)) (Fin 1000) \<or> js_lt (parseVisSM h (norm_str metar)) (Fin 3)
        then ''IFR''
      else if js_lt (parseCeilFt h (norm_str metar)) (Fin 3000) \<or> js_lt (parseVisSM h (norm_str metar)) (Fin 5)
        then ''MVFR''
      else ''VFR'')"
proof -
  have c: "parseCeilFt h (norm_str metar) \<noteq> NegInf"
    using parseCeilFt_range[of h "norm_str metar"] by auto
  have v: "parseVisSM h (norm_str metar) \<noteq> NegInf"
    using parseVisSM_range[of h "norm_str metar"] by auto
  show ?thesis
    unfolding flightCategory_def Let_def
    by (simp add: guarded_lt[OF c] guarded_lt[OF v])
qed

text \<open>
  Claim C5. The category of a blank report is the dash, not an error. For any other
  report, with the ceiling and the visibility that the two parsers read from it, the
  category is LIFR if the ceiling is below 500 ft or the visibility below 1 SM; else IFR
  if the ceiling is below 1000 ft or the visibility below 3 SM; else MVFR if the ceiling
  is below 3000 ft or the visibility below 5 SM; else VFR. The comparisons are those of
  JavaScript: they are false for a ceiling of \<open>Infinity\<close> and a visibility of
  \<open>NaN\<close>, and the parsers return no negative infinity, so the tests for a finite
  number in the code change nothing. The bands exclude their upper ends: a ceiling of
  exactly 500 ft does not make the report LIFR, so the category is IFR unless the
  visibility is below 1 SM, and a visibility of exactly 3 SM does not make it IFR, so the
  category is MVFR unless the ceiling is below 1000 ft. Two reports show it: overcast at
  500 ft with 10 SM is IFR, and 3 SM with scattered clouds is MVFR.
\<close>

theorem flightCategory_thresholds:
  "cat (flightCategory h metar) =
     (if norm_str metar = [] then emDash
      else if js_lt (parseCeilFt h (norm_str metar)) (Fin 500) \<or> js_lt (parseVisSM h (norm_str metar)) (Fin 1)
        then ''LIFR''
      else if js_lt (parseCeilFt h (norm_str metar)) (Fin 1000) \<or> js_lt (parseVisSM h (norm_str metar)) (Fin 3)
        then ''IFR''
      else if js_lt (parseCeilFt h (norm_str metar)) (Fin 3000) \<or> js_lt (parseVisSM h (norm_str metar)) (Fin 5)
        then ''MVFR''
      else ''VFR'')
   \<and> (norm_str metar \<noteq> [] \<and> parseCeilFt h (norm_str metar) = Fin 500
        \<and> \<not> js_lt (parseVisSM h (norm_str metar)) (Fin 1)
        \<longrightarrow> cat (flightCategory h metar) = ''IFR'')
   \<and> (norm_str metar \<noteq> [] \<and> parseVisSM h (norm_str metar) = Fin 3
        \<and> \<not> js_lt (parseCeilFt h (norm_str metar)) (Fin 1000)
        \<longrightarrow> cat (flightCategory h metar) = ''MVFR'')
   \<and> cat (flightCategory jsHost (Some ''KLGA 121251Z 27010KT 10SM OVC005 18/16 A2992'')) = ''IFR''
   \<and> cat (flightCategory jsHost (Some ''KLGA 121251Z 27010KT 3SM BR SCT030 18/16 A2992'')) = ''MVFR''"
proof -
  have e1: "cat (flightCategory jsHost (Some ''KLGA 121251Z 27010KT 10SM OVC005 18/16 A2992'')) = ''IFR''"
    by code_simp
  have e2: "cat (flightCategory jsHost (Some ''KLGA 121251Z 27010KT 3SM BR SCT030 18/16 A2992'')) = ''MVFR''"
    by code_simp
  have b1: "norm_str metar \<noteq> [] \<and> parseCeilFt h (norm_str metar) = Fin 500
        \<and> \<not> js_lt (parseVisSM h (norm_str metar)) (Fin 1)
        \<longrightarrow> cat (flightCategory h metar) = ''IFR''"
    by (simp add: flightCategory_cat)
  have b2: "norm_str metar \<noteq> [] \<and> parseVisSM h (norm_str metar) = Fin 3
        \<and> \<not> js_lt (parseCeilFt h (norm_str metar)) (Fin 1000)
        \<longrightarrow> cat (flightCategory h metar) = ''MVFR''"
    using js_lt_Fin_mono[of "parseCeilFt h (norm_str metar)" 500 1000]
    by (simp add: flightCategory_cat)
  show ?thesis
    using flightCategory_cat[of h metar] b1 b2 e1 e2 by blast
qed

theorem flightCategory_thresholds_witness:
  "parseCeilFt jsHost ''KLGA 121251Z 27010KT 10SM OVC005 18/16 A2992'' = Fin 500
   \<and> parseVisSM jsHost ''KLGA 121251Z 27010KT 10SM OVC005 18/16 A2992'' = Fin 10
   \<and> cat (flightCategory jsHost (Some ''KLGA 121251Z 27010KT 10SM OVC005 18/16 A2992'')) = ''IFR''
   \<and> parseVisSM jsHost ''KLGA 3SM BKN040'' = Fin 3
   \<and> parseCeilFt jsHost ''KLGA 3SM BKN040'' = Fin 4000
   \<and> cat (flightCategory jsHost (Some ''KLGA 3SM BKN040'')) = ''MVFR''
   \<and> cat (flightCategory jsHost (Some '' '')) = emDash"
proof -
  let ?m1 = "''KLGA 121251Z 27010KT 10SM OVC005 18/16 A2992''"
  let ?m2 = "''KLGA 3SM BKN040''"
  have n: "norm_str (Some ?m1) = ?m1" "norm_str (Some ?m2) = ?m2" "norm_str (Some '' '') = []"
    by code_simp+
  have c1: "parseCeilFt jsHost ?m1 = Fin 500" by code_simp
  have v1: "parseVisSM jsHost ?m1 = Fin 10" by code_simp
  have c2: "parseCeilFt jsHost ?m2 = Fin 4000" by code_simp
  have v2: "parseVisSM jsHost ?m2 = Fin 3" by code_simp
  show ?thesis
    using flightCategory_thresholds[of jsHost "Some ?m1"]
      flightCategory_thresholds[of jsHost "Some ?m2"]
      flightCategory_thresholds[of jsHost "Some '' ''"]
      n c1 v1 c2 v2
    by simp
qed

section \<open>Frequency display: theorems\<close>










section \<open>The navigation aid index\<close>

text \<open>
  A sort whose comparator agrees with a total, transitive order on the elements gives a
  list in that order.
\<close>

lemma insertSorted_sorted:
  assumes total: "\<And>a b. a \<in> A \<Longrightarrow> b \<in> A \<Longrightarrow> P a b \<or> P b a"
    and trans: "\<And>a b c. a \<in> A \<Longrightarrow> b \<in> A \<Longrightarrow> c \<in> A \<Longrightarrow> P a b \<Longrightarrow> P b c \<Longrightarrow> P a c"
    and cmp: "\<And>a b. a \<in> A \<Longrightarrow> b \<in> A \<Longrightarrow> cmpPositive (cmp a b) \<longleftrightarrow> \<not> P a b"
    and "sorted_wrt P ys" "set ys \<subseteq> A" "x \<in> A"
  shows "sorted_wrt P (insertSorted cmp x ys)"
  using assms(4,5)
proof (induction ys)
  case Nil
  then show ?case by simp
next
  case (Cons y ys)
  have yA: "y \<in> A" and ysA: "set ys \<subseteq> A" using Cons.prems by auto
  show ?case
  proof (cases "cmpPositive (cmp x y)")
    case True
    then have "P y x" using cmp[OF assms(6) yA] total[OF assms(6) yA] by blast
    moreover have "\<forall>z \<in> set ys. P y z" using Cons.prems by simp
    moreover have "sorted_wrt P (insertSorted cmp x ys)"
      using Cons.IH Cons.prems by simp
    ultimately show ?thesis using True by (simp add: set_insertSorted)
  next
    case False
    then have xy: "P x y" using cmp[OF assms(6) yA] by blast
    have "\<forall>z \<in> set ys. P x z"
    proof
      fix z assume z: "z \<in> set ys"
      then have "P y z" using Cons.prems by simp
      then show "P x z" using trans[OF assms(6) yA _ xy] z ysA by blast
    qed
    then show ?thesis using False xy Cons.prems by simp
  qed
qed

lemma Array_sort_sorted:
  assumes total: "\<And>a b. a \<in> A \<Longrightarrow> b \<in> A \<Longrightarrow> P a b \<or> P b a"
    and trans: "\<And>a b c. a \<in> A \<Longrightarrow> b \<in> A \<Longrightarrow> c \<in> A \<Longrightarrow> P a b \<Longrightarrow> P b c \<Longrightarrow> P a c"
    and cmp: "\<And>a b. a \<in> A \<Longrightarrow> b \<in> A \<Longrightarrow> cmpPositive (cmp a b) \<longleftrightarrow> \<not> P a b"
    and "set xs \<subseteq> A"
  shows "sorted_wrt P (Array_sort cmp xs)"
  using assms(4)
proof (induction xs)
  case Nil
  then show ?case by (simp add: Array_sort_Nil)
next
  case (Cons x xs)
  have "sorted_wrt P (Array_sort cmp xs)" using Cons by simp
  moreover have "set (Array_sort cmp xs) \<subseteq> A" using Cons.prems by (simp add: set_Array_sort)
  moreover have "x \<in> A" using Cons.prems by simp
  ultimately show ?case
    unfolding Array_sort_Cons
    using insertSorted_sorted[of A P cmp "Array_sort cmp xs" x] total trans cmp by blast
qed

lemma js_lt_trans: "js_lt a b \<Longrightarrow> js_lt b c \<Longrightarrow> js_lt a c"
  by (cases a; cases b; cases c) auto

lemma js_lt_total: "a \<noteq> NaN \<Longrightarrow> b \<noteq> NaN \<Longrightarrow> js_lt a b \<or> a = b \<or> js_lt b a"
  by (cases a; cases b) auto

lemma js_lt_irrefl: "\<not> js_lt a a"
  by (cases a) auto

lemma byDistanceThenName_iff:
  assumes "DIST_NM a \<noteq> NaN" "DIST_NM b \<noteq> NaN"
  shows "cmpPositive (byDistanceThenName h a b) \<longleftrightarrow> \<not> precedes h a b"
  using assms
  by (cases "DIST_NM a"; cases "DIST_NM b")
     (auto simp: byDistanceThenName_def precedes_def js_or_def cmpPositive_def)

lemma precedes_total:
  assumes "\<forall>s t. localeCompare h s t \<le> 0 \<or> localeCompare h t s \<le> 0"
    and "DIST_NM a \<noteq> NaN" "DIST_NM b \<noteq> NaN"
  shows "precedes h a b \<or> precedes h b a"
  using js_lt_total[OF assms(2,3)] assms(1)
  by (auto simp: precedes_def)

lemma precedes_trans:
  assumes "\<forall>s t u. localeCompare h s t \<le> 0 \<longrightarrow> localeCompare h t u \<le> 0
             \<longrightarrow> localeCompare h s u \<le> 0"
    and "precedes h a b" "precedes h b c"
  shows "precedes h a c"
proof -
  have lc: "localeCompare h (NAME a) (NAME b) \<le> 0 \<Longrightarrow> localeCompare h (NAME b) (NAME c) \<le> 0
              \<Longrightarrow> localeCompare h (NAME a) (NAME c) \<le> 0"
    using assms(1) by blast
  show ?thesis
    using assms(2,3) lc js_lt_trans[of "DIST_NM a" "DIST_NM b" "DIST_NM c"]
    by (auto simp: precedes_def)
qed

text \<open>
  The distance of a record is never NaN while \<open>haversineNM\<close> gives none; a cell that
  does not convert to a finite number gives the record an infinite distance.
\<close>

lemma navaidOf_dist:
  assumes "\<And>la lo. haversineNM KLGA_LAT KLGA_LON la lo \<noteq> NaN"
  shows "DIST_NM (navaidOf h haversineNM r) \<noteq> NaN"
  using assms by (auto simp: navaidOf_def Let_def split: jsnum.splits prod.splits)

lemma navaidOf_nonnumeric:
  assumes "\<not> isFinite (Number h (norm_str (row_latitude_deg r)))
           \<or> \<not> isFinite (Number h (norm_str (row_longitude_deg r)))"
  shows "DIST_NM (navaidOf h haversineNM r) = PosInf"
  using assms by (auto simp: navaidOf_def Let_def toNumberOrNaN_def split: jsnum.splits)

lemma pushToGroup_ok: "groupsOk Q groups \<Longrightarrow> Q obj \<Longrightarrow> groupsOk Q (pushToGroup ident obj groups)"
  by (fastforce simp: groupsOk_def pushToGroup_def list_all_iff split: if_splits)

lemma addRow_ok:
  "groupsOk Q (navaidByIdent index) \<Longrightarrow> (\<And>r. Q (navaidOf h haversineNM r))
     \<Longrightarrow> groupsOk Q (navaidByIdent (addRow h haversineNM index row))"
  by (simp add: addRow_def Let_def pushToGroup_ok)

lemma foldl_addRow_ok:
  "groupsOk Q (navaidByIdent index) \<Longrightarrow> (\<And>r. Q (navaidOf h haversineNM r))
     \<Longrightarrow> groupsOk Q (navaidByIdent (foldl (addRow h haversineNM) index rows))"
proof (induction rows arbitrary: index)
  case Nil
  then show ?case by simp
next
  case (Cons row rows)
  have "groupsOk Q (navaidByIdent (addRow h haversineNM index row))"
    using addRow_ok[OF Cons.prems(1), of h haversineNM row] Cons.prems(2) by blast
  then show ?case using Cons.IH Cons.prems(2) by simp
qed

text \<open>
  The comparator of \<open>buildNavaidMaps\<close> does its part: where the collation of the host is
  total and transitive and \<open>haversineNM\<close> gives no NaN, every list of the map is in the
  order \<open>precedes\<close>, by the distance stored in the record, then by name, a record with
  an infinite distance after every record with a finite one.
\<close>

lemma buildNavaidMaps_groups_sorted:
  assumes lcTotal: "\<forall>s t. localeCompare h s t \<le> 0 \<or> localeCompare h t s \<le> 0"
    and lcTrans: "\<forall>s t u. localeCompare h s t \<le> 0 \<longrightarrow> localeCompare h t u \<le> 0
                    \<longrightarrow> localeCompare h s u \<le> 0"
    and dist: "\<And>la lo. haversineNM KLGA_LAT KLGA_LON la lo \<noteq> NaN"
    and "(ident, list) \<in> set (navaidByIdent (buildNavaidMaps h haversineNM rows))"
  shows "sorted_wrt (precedes h) list"
proof -
  let ?A = "{x. DIST_NM x \<noteq> NaN}"
  let ?filled = "foldl (addRow h haversineNM) \<lparr> navaidByIdent = [], navaidSearchIndex = [] \<rparr> rows"
  have ok: "groupsOk (\<lambda>x. DIST_NM x \<noteq> NaN) (navaidByIdent ?filled)"
  proof (rule foldl_addRow_ok)
    show "groupsOk (\<lambda>x. DIST_NM x \<noteq> NaN) (navaidByIdent \<lparr> navaidByIdent = [], navaidSearchIndex = [] \<rparr>)"
      by (simp add: groupsOk_def)
    show "\<And>r. DIST_NM (navaidOf h haversineNM r) \<noteq> NaN"
      using navaidOf_dist[of haversineNM h] dist by blast
  qed
  obtain raw where r: "(ident, raw) \<in> set (navaidByIdent ?filled)"
    and l: "list = Array_sort (byDistanceThenName h) raw"
    using assms(4) by (auto simp: buildNavaidMaps_def Let_def)
  have sub: "set raw \<subseteq> ?A" using ok r by (auto simp: groupsOk_def list_all_iff)
  show ?thesis
    unfolding l
  proof (rule Array_sort_sorted[where A = ?A])
    show "\<And>a b. a \<in> ?A \<Longrightarrow> b \<in> ?A \<Longrightarrow> precedes h a b \<or> precedes h b a"
      using precedes_total[OF lcTotal] by simp
    show "\<And>a b c. a \<in> ?A \<Longrightarrow> b \<in> ?A \<Longrightarrow> c \<in> ?A \<Longrightarrow> precedes h a b \<Longrightarrow> precedes h b c \<Longrightarrow> precedes h a c"
      using precedes_trans[OF lcTrans] by blast
    show "\<And>a b. a \<in> ?A \<Longrightarrow> b \<in> ?A \<Longrightarrow> cmpPositive (byDistanceThenName h a b) \<longleftrightarrow> \<not> precedes h a b"
      using byDistanceThenName_iff by simp
    show "set raw \<subseteq> ?A" by (rule sub)
  qed
qed


text \<open>The cells of the two example rows, trimmed.\<close>

lemma example_row_cells:
  "toUpperCase (norm_str (row_ident perthRow)) = ''PH''"
  "toUpperCase (norm_str (row_ident blankRow)) = ''PH''"
  "norm_str (row_latitude_deg perthRow) = ''-31.94''"
  "norm_str (row_longitude_deg perthRow) = ''115.97''"
  "norm_str (row_latitude_deg blankRow) = []"
  "norm_str (row_longitude_deg blankRow) = []"
  "norm_str (row_name perthRow) = ''PERTH''"
  "norm_str (row_name blankRow) = ''NO POSITION''"
  by code_simp+

text \<open>
  Claim C6 fails on a row whose latitude and longitude cells are empty. \<open>toNumberOrNaN\<close>
  converts the trimmed cell with \<open>Number\<close>, which makes 0 of the empty string, a
  finite number: the record gets the position 0, 0 and the finite distance of that point from
  KLGA, not an infinite one. Where a record with the same identifier is farther away than
  that point, the record with no coordinates is placed before it in the list, not last.
\<close>

theorem buildNavaidMaps_blank_coordinates:
  assumes "Number h [] = Fin 0"
    and "Number h ''-31.94'' = Fin la" and "Number h ''115.97'' = Fin lo"
    and "haversineNM KLGA_LAT KLGA_LON 0 0 = Fin d0"
    and "haversineNM KLGA_LAT KLGA_LON la lo = Fin d1"
    and "d0 < d1"
  shows "LAT (navaidOf h haversineNM blankRow) = Fin 0
       \<and> LON (navaidOf h haversineNM blankRow) = Fin 0
       \<and> DIST_NM (navaidOf h haversineNM blankRow) = Fin d0
       \<and> DIST_NM (navaidOf h haversineNM perthRow) = Fin d1
       \<and> map NAME (groupOf (buildNavaidMaps h haversineNM [perthRow, blankRow]) ''PH'')
           = [''NO POSITION'', ''PERTH'']"
proof -
  let ?B = "navaidOf h haversineNM blankRow"
  let ?P = "navaidOf h haversineNM perthRow"
  have b: "LAT ?B = Fin 0" "LON ?B = Fin 0" "DIST_NM ?B = Fin d0" "NAME ?B = ''NO POSITION''"
    using assms(1,4) by (simp_all add: navaidOf_def Let_def toNumberOrNaN_def example_row_cells)
  have p: "DIST_NM ?P = Fin d1" "NAME ?P = ''PERTH''"
    using assms(2,3,5) by (simp_all add: navaidOf_def Let_def toNumberOrNaN_def example_row_cells)
  have c: "cmpPositive (byDistanceThenName h ?P ?B)"
    using assms(6) by (simp add: byDistanceThenName_def js_or_def cmpPositive_def b p)
  have s: "Array_sort (byDistanceThenName h) [?P, ?B] = [?B, ?P]"
    using c by (simp add: Array_sort_def)
  have g: "navaidByIdent (buildNavaidMaps h haversineNM [perthRow, blankRow])
             = [(''PH'', Array_sort (byDistanceThenName h) [?P, ?B])]"
    by (simp add: buildNavaidMaps_def addRow_def pushToGroup_def Let_def example_row_cells)
  have "groupOf (buildNavaidMaps h haversineNM [perthRow, blankRow]) ''PH'' = [?B, ?P]"
    unfolding groupOf_def g s by simp
  then show ?thesis using b p by simp
qed

text \<open>
  With the number conversion of the language and the stand-in distance: the navigation
  aid with empty coordinate cells is listed before the one near Perth.
\<close>

theorem buildNavaidMaps_blank_coordinates_witness:
  "LAT (navaidOf jsHost flatDistance blankRow) = Fin 0
   \<and> LON (navaidOf jsHost flatDistance blankRow) = Fin 0
   \<and> isFinite (DIST_NM (navaidOf jsHost flatDistance blankRow))
   \<and> map NAME (groupOf (buildNavaidMaps jsHost flatDistance [perthRow, blankRow]) ''PH'')
       = [''NO POSITION'', ''PERTH'']"
proof -
  have n: "Number jsHost [] = Fin 0" "Number jsHost ''-31.94'' = Fin (- (3194 / 100))"
    "Number jsHost ''115.97'' = Fin (11597 / 100)"
    by code_simp+
  have d0: "flatDistance KLGA_LAT KLGA_LON 0 0 = Fin (60 * (407772 / 10000 + 738726 / 10000))"
    by (simp add: flatDistance_def KLGA_LAT_def KLGA_LON_def)
  have d1: "flatDistance KLGA_LAT KLGA_LON (- (3194 / 100)) (11597 / 100)
              = Fin (60 * (407772 / 10000 + 3194 / 100 + (11597 / 100 + 738726 / 10000)))"
    by (simp add: flatDistance_def KLGA_LAT_def KLGA_LON_def)
  have lt: "(60 * (407772 / 10000 + 738726 / 10000) :: rat)
              < 60 * (407772 / 10000 + 3194 / 100 + (11597 / 100 + 738726 / 10000))"
    by simp
  show ?thesis
    using buildNavaidMaps_blank_coordinates
      [where h = jsHost and haversineNM = flatDistance and la = "- (3194 / 100)"
         and lo = "11597 / 100" and ?d0.0 = "60 * (407772 / 10000 + 738726 / 10000)"
         and ?d1.0 = "60 * (407772 / 10000 + 3194 / 100 + (11597 / 100 + 738726 / 10000))"]
      n d0 d1 lt
    by simp
qed

end
